theory Spec2Isabelle
  imports Main "HOL-Library.Word"
begin

section \<open>pagespeed/kernel/base/file\_system.h\<close>

text \<open>
  A shallow embedding of the abstract file system interface of
  \<^verbatim>\<open>pagespeed/kernel/base/file_system.h\<close>: the three-way result type
  \<^verbatim>\<open>BoolOrError\<close>, the class \<^verbatim>\<open>FileSystem\<close> with its pure virtual
  methods as the fields of a record of state transformers, and the methods the
  header implements inline as definitions over that record. The header declares
  further methods whose bodies it does not hold, and it has no backend; where a
  property needs one of them, it is modelled from the specification and marked
  as such.
\<close>

subsection \<open>BoolOrError\<close>

text \<open>\<^verbatim>\<open>enum Choice { kIsFalse, kIsTrue, kIsError };\<close>\<close>

datatype Choice = kIsFalse | kIsTrue | kIsError

text \<open>The class has the single private member \<^verbatim>\<open>Choice choice_\<close>.\<close>

record BoolOrError =
  choice :: Choice

text \<open>\<^verbatim>\<open>BoolOrError() : choice_(kIsError) {}\<close>\<close>

definition BoolOrError_default :: BoolOrError where
  "BoolOrError_default = \<lparr>choice = kIsError\<rparr>"

text \<open>\<^verbatim>\<open>explicit BoolOrError(bool t_or_f) : choice_(t_or_f ? kIsTrue : kIsFalse) {}\<close>\<close>

definition BoolOrError_bool :: "bool \<Rightarrow> BoolOrError" where
  "BoolOrError_bool t_or_f = \<lparr>choice = (if t_or_f then kIsTrue else kIsFalse)\<rparr>"

text \<open>\<^verbatim>\<open>BoolOrError(const BoolOrError& src) : choice_(src.choice_) {}\<close>\<close>

definition BoolOrError_copy :: "BoolOrError \<Rightarrow> BoolOrError" where
  "BoolOrError_copy src = \<lparr>choice = choice src\<rparr>"

text \<open>
  \<^verbatim>\<open>operator=\<close>: the object assigned to takes the choice of \<^verbatim>\<open>src\<close>; when
  \<^verbatim>\<open>src\<close> is the object itself the assignment is skipped, which leaves the same
  value.
\<close>

definition BoolOrError_assign :: "BoolOrError \<Rightarrow> BoolOrError \<Rightarrow> BoolOrError" where
  "BoolOrError_assign this src = this\<lparr>choice := choice src\<rparr>"

definition is_false :: "BoolOrError \<Rightarrow> bool" where
  "is_false b = (choice b = kIsFalse)"

definition is_true :: "BoolOrError \<Rightarrow> bool" where
  "is_true b = (choice b = kIsTrue)"

definition is_error :: "BoolOrError \<Rightarrow> bool" where
  "is_error b = (choice b = kIsError)"

definition set_error :: "BoolOrError \<Rightarrow> BoolOrError" where
  "set_error b = b\<lparr>choice := kIsError\<rparr>"

text \<open>\<^verbatim>\<open>void set(bool t_or_f) { choice_ = t_or_f ? kIsTrue : kIsFalse; }\<close>\<close>

definition set_bool :: "bool \<Rightarrow> BoolOrError \<Rightarrow> BoolOrError" where
  "set_bool t_or_f b = b\<lparr>choice := (if t_or_f then kIsTrue else kIsFalse)\<rparr>"

subsection \<open>The FileSystem interface\<close>

type_synonym int64 = "64 word"

text \<open>\<^verbatim>\<open>static const int64 kUnlimitedSize = -1;\<close>\<close>

definition kUnlimitedSize :: int64 where
  "kUnlimitedSize = - 1"

text \<open>
  A \<^verbatim>\<open>File\<close> handle; \<^verbatim>\<open>filename()\<close> is all the base class shows. A pointer to a
  handle that may be \<^verbatim>\<open>NULL\<close> is a \<open>File option\<close>.
\<close>

record File =
  filename :: string

text \<open>
  The pure virtual methods of \<^verbatim>\<open>FileSystem\<close> (and of its handle classes), the
  ones the methods below call. \<open>'s\<close> is the state of the storage behind the
  interface, \<open>'h\<close> stands for \<^verbatim>\<open>MessageHandler*\<close>. Every method takes the state
  and returns its result with the new state.
\<close>

record ('s, 'h) FileSystem =
  OpenInputFile :: "string \<Rightarrow> 'h \<Rightarrow> 's \<Rightarrow> File option \<times> 's"
  InputFile_ReadFile :: "File \<Rightarrow> string \<Rightarrow> int64 \<Rightarrow> 'h \<Rightarrow> 's \<Rightarrow> (bool \<times> string) \<times> 's"
  File_Close :: "File \<Rightarrow> 'h \<Rightarrow> 's \<Rightarrow> bool \<times> 's"
  MakeDir :: "string \<Rightarrow> 'h \<Rightarrow> 's \<Rightarrow> bool \<times> 's"
  Exists :: "string \<Rightarrow> 'h \<Rightarrow> 's \<Rightarrow> BoolOrError \<times> 's"
  IsDir :: "string \<Rightarrow> 'h \<Rightarrow> 's \<Rightarrow> BoolOrError \<times> 's"
  TryLock :: "string \<Rightarrow> 'h \<Rightarrow> 's \<Rightarrow> BoolOrError \<times> 's"
  Unlock :: "string \<Rightarrow> 'h \<Rightarrow> 's \<Rightarrow> bool \<times> 's"
  OpenOutputFileHelper :: "string \<Rightarrow> bool \<Rightarrow> 'h \<Rightarrow> 's \<Rightarrow> File option \<times> 's"
  OpenTempFileHelper :: "string \<Rightarrow> 'h \<Rightarrow> 's \<Rightarrow> File option \<times> 's"
  OutputFile_Write :: "File \<Rightarrow> string \<Rightarrow> 'h \<Rightarrow> 's \<Rightarrow> bool \<times> 's"
  RenameFileHelper :: "string \<Rightarrow> string \<Rightarrow> 'h \<Rightarrow> 's \<Rightarrow> bool \<times> 's"

text \<open>
  \<^verbatim>\<open>struct FileInfo\<close> and \<^verbatim>\<open>struct DirInfo\<close>, with the constructor
  \<^verbatim>\<open>DirInfo() : size_bytes(0), inode_count(0) {}\<close> (the two vectors start empty).
\<close>

record FileInfo =
  size_bytes :: int64
  atime_sec :: int64
  name :: string

record DirInfo =
  files :: "FileInfo list"
  empty_dirs :: "string list"
  size_bytes :: int64
  inode_count :: int64

definition DirInfo_default :: DirInfo where
  "DirInfo_default = \<lparr>files = [], empty_dirs = [], size_bytes = 0, inode_count = 0\<rparr>"

subsection \<open>Methods the header implements\<close>

text \<open>
  The default \<^verbatim>\<open>TryLockWithTimeout\<close>:
  \<^verbatim>\<open>{ return TryLock(lock_name, handler); }\<close>.
  \<open>'t\<close> stands for \<^verbatim>\<open>const Timer*\<close>.
\<close>

definition TryLockWithTimeout ::
  "('s, 'h) FileSystem \<Rightarrow> string \<Rightarrow> int64 \<Rightarrow> 't \<Rightarrow> 'h \<Rightarrow> 's \<Rightarrow> BoolOrError \<times> 's" where
  "TryLockWithTimeout fs lock_name timeout_millis timer handler s =
     TryLock fs lock_name handler s"

text \<open>The default \<^verbatim>\<open>BumpLockTimeout\<close>: \<^verbatim>\<open>{ return true; }\<close>.\<close>

definition BumpLockTimeout ::
  "('s, 'h) FileSystem \<Rightarrow> string \<Rightarrow> 'h \<Rightarrow> 's \<Rightarrow> bool \<times> 's" where
  "BumpLockTimeout fs lock_name handler s = (True, s)"

subsection \<open>Creating the directory of a file\<close>

text \<open>
  Modelled from the spec: the directories above a path. The header declares
  \<^verbatim>\<open>SetupFileDir\<close> and \<^verbatim>\<open>RecursivelyMakeDir\<close> but holds neither body, nor
  any function on paths. A path is a string with \<open>/\<close> between its parts;
  \<open>prefixes_at_slash acc cs\<close> walks the rest \<open>cs\<close> of a path whose part already
  read is \<open>acc\<close> and returns, shortest first, every non-empty prefix that ends
  just before a \<open>/\<close>. So \<open>ancestors ''/a/b/c.txt''\<close> is \<open>[''/a'', ''/a/b'']\<close>,
  and \<open>parent_dir\<close> is the last of them, if any.
\<close>

fun prefixes_at_slash :: "string \<Rightarrow> string \<Rightarrow> string list" where
  "prefixes_at_slash acc [] = []"
| "prefixes_at_slash acc (c # cs) =
     (if c = CHR ''/'' \<and> acc \<noteq> [] then [acc] else []) @ prefixes_at_slash (acc @ [c]) cs"

definition ancestors :: "string \<Rightarrow> string list" where
  "ancestors p = prefixes_at_slash [] p"

definition parent_dir :: "string \<Rightarrow> string option" where
  "parent_dir p = (if ancestors p = [] then None else Some (last (ancestors p)))"

text \<open>
  Modelled from the spec: the body of \<^verbatim>\<open>RecursivelyMakeDir\<close>, which is not in the
  header (like POSIX \<open>mkdir -p\<close>, makes all directories up to this one
  recursively). \<open>make_dirs\<close> takes the chain of directories, outermost first:
  one that exists as a directory is passed over, one that does not exist is made
  with \<^verbatim>\<open>MakeDir\<close>, and the first failure (a \<^verbatim>\<open>MakeDir\<close> that fails, a path that
  exists and is no directory) ends the walk with false.
\<close>

fun make_dirs :: "('s, 'h) FileSystem \<Rightarrow> string list \<Rightarrow> 'h \<Rightarrow> 's \<Rightarrow> bool \<times> 's" where
  "make_dirs fs [] handler s = (True, s)"
| "make_dirs fs (subpath # rest) handler s =
     (case Exists fs subpath handler s of (e, s1) \<Rightarrow>
        if is_false e then
          (case MakeDir fs subpath handler s1 of (made, s2) \<Rightarrow>
             if made then make_dirs fs rest handler s2 else (False, s2))
        else
          (case IsDir fs subpath handler s1 of (d, s2) \<Rightarrow>
             if is_true d then make_dirs fs rest handler s2 else (False, s2)))"

definition RecursivelyMakeDir ::
  "('s, 'h) FileSystem \<Rightarrow> string \<Rightarrow> 'h \<Rightarrow> 's \<Rightarrow> bool \<times> 's" where
  "RecursivelyMakeDir fs directory_path handler s =
     make_dirs fs (ancestors directory_path @ [directory_path]) handler s"

text \<open>
  Modelled from the spec: the body of the private \<^verbatim>\<open>SetupFileDir\<close>, which is not in
  the header (RecursiveMakeDir the directory needed for filename). It returns
  \<^verbatim>\<open>void\<close>: whether the directories could be made is not reported to the caller.
\<close>

definition SetupFileDir :: "('s, 'h) FileSystem \<Rightarrow> string \<Rightarrow> 'h \<Rightarrow> 's \<Rightarrow> 's" where
  "SetupFileDir fs file_name handler s =
     (case parent_dir file_name of
        None \<Rightarrow> s
      | Some directory_name \<Rightarrow> snd (RecursivelyMakeDir fs directory_name handler s))"

text \<open>
  The three inline entry points of the header, each
  \<^verbatim>\<open>SetupFileDir(filename, handler); return Open...Helper(...);\<close>.
\<close>

definition OpenOutputFile ::
  "('s, 'h) FileSystem \<Rightarrow> string \<Rightarrow> 'h \<Rightarrow> 's \<Rightarrow> File option \<times> 's" where
  "OpenOutputFile fs file_name handler s =
     (let s1 = SetupFileDir fs file_name handler s
      in OpenOutputFileHelper fs file_name False handler s1)"

definition OpenOutputFileForAppend ::
  "('s, 'h) FileSystem \<Rightarrow> string \<Rightarrow> 'h \<Rightarrow> 's \<Rightarrow> File option \<times> 's" where
  "OpenOutputFileForAppend fs file_name handler s =
     (let s1 = SetupFileDir fs file_name handler s
      in OpenOutputFileHelper fs file_name True handler s1)"

definition OpenTempFile ::
  "('s, 'h) FileSystem \<Rightarrow> string \<Rightarrow> 'h \<Rightarrow> 's \<Rightarrow> File option \<times> 's" where
  "OpenTempFile fs prefix_name handler s =
     (let s1 = SetupFileDir fs prefix_name handler s
      in OpenTempFileHelper fs prefix_name handler s1)"

text \<open>
  The inline \<^verbatim>\<open>RenameFile\<close> of the header:
  \<^verbatim>\<open>SetupFileDir(new_filename, handler); return RenameFileHelper(old_filename, new_filename, handler);\<close>.
\<close>

definition RenameFile ::
  "('s, 'h) FileSystem \<Rightarrow> string \<Rightarrow> string \<Rightarrow> 'h \<Rightarrow> 's \<Rightarrow> bool \<times> 's" where
  "RenameFile fs old_filename new_filename handler s =
     (let s1 = SetupFileDir fs new_filename handler s
      in RenameFileHelper fs old_filename new_filename handler s1)"

subsection \<open>Reading a whole file\<close>

text \<open>
  Modelled from the spec: the body of \<^verbatim>\<open>FileSystem::Close\<close>, which is not in the
  header: it closes the handle through the handle's own \<^verbatim>\<open>Close\<close>.
\<close>

definition Close :: "('s, 'h) FileSystem \<Rightarrow> File \<Rightarrow> 'h \<Rightarrow> 's \<Rightarrow> bool \<times> 's" where
  "Close fs file handler s = File_Close fs file handler s"

text \<open>
  Modelled from the spec: the bodies of the four size-limited \<^verbatim>\<open>ReadFile\<close>
  overloads, which are not in the header. A \<^verbatim>\<open>NULL\<close> handle is reported as a
  failure, a file larger than \<^verbatim>\<open>max_file_size\<close> gives false, and every routine
  closes the file. The versions that take a file name open it first. A
  \<^verbatim>\<open>GoogleString* buffer\<close> is the string passed in and returned; a \<^verbatim>\<open>Writer*\<close>
  is the string of the bytes written to it so far, and receives the file's
  content only when the read succeeded.
\<close>

definition ReadFile_input_buffer ::
  "('s, 'h) FileSystem \<Rightarrow> File option \<Rightarrow> int64 \<Rightarrow> string \<Rightarrow> 'h \<Rightarrow> 's
     \<Rightarrow> (bool \<times> string) \<times> 's" where
  "ReadFile_input_buffer fs input_file max_file_size buffer handler s =
     (case input_file of
        None \<Rightarrow> ((False, buffer), s)
      | Some f \<Rightarrow>
          (case InputFile_ReadFile fs f buffer max_file_size handler s of
             ((ret, buffer1), s1) \<Rightarrow>
               (case Close fs f handler s1 of
                  (closed, s2) \<Rightarrow> ((ret \<and> closed, buffer1), s2))))"

definition ReadFile_name_buffer ::
  "('s, 'h) FileSystem \<Rightarrow> string \<Rightarrow> int64 \<Rightarrow> string \<Rightarrow> 'h \<Rightarrow> 's
     \<Rightarrow> (bool \<times> string) \<times> 's" where
  "ReadFile_name_buffer fs file_name max_file_size buffer handler s =
     (case OpenInputFile fs file_name handler s of
        (input_file, s1) \<Rightarrow>
          ReadFile_input_buffer fs input_file max_file_size buffer handler s1)"

definition ReadFile_input_writer ::
  "('s, 'h) FileSystem \<Rightarrow> File option \<Rightarrow> int64 \<Rightarrow> string \<Rightarrow> 'h \<Rightarrow> 's
     \<Rightarrow> (bool \<times> string) \<times> 's" where
  "ReadFile_input_writer fs input_file max_file_size writer handler s =
     (case ReadFile_input_buffer fs input_file max_file_size [] handler s of
        ((ret, buffer), s1) \<Rightarrow>
          if ret then ((True, writer @ buffer), s1) else ((False, writer), s1))"

definition ReadFile_name_writer ::
  "('s, 'h) FileSystem \<Rightarrow> string \<Rightarrow> int64 \<Rightarrow> string \<Rightarrow> 'h \<Rightarrow> 's
     \<Rightarrow> (bool \<times> string) \<times> 's" where
  "ReadFile_name_writer fs file_name max_file_size writer handler s =
     (case OpenInputFile fs file_name handler s of
        (input_file, s1) \<Rightarrow>
          ReadFile_input_writer fs input_file max_file_size writer handler s1)"

subsection \<open>Writing a whole file\<close>

text \<open>
  Modelled from the spec: the body of \<^verbatim>\<open>WriteTempFile\<close>, which is not in the
  header. It writes the data to a temporary file in one shot and returns the
  name of that file on success; on failure it returns false and an empty name.
\<close>

definition WriteTempFile ::
  "('s, 'h) FileSystem \<Rightarrow> string \<Rightarrow> string \<Rightarrow> 'h \<Rightarrow> 's \<Rightarrow> (bool \<times> string) \<times> 's" where
  "WriteTempFile fs prefix_name buffer handler s =
     (case OpenTempFile fs prefix_name handler s of
        (None, s1) \<Rightarrow> ((False, []), s1)
      | (Some f, s1) \<Rightarrow>
          (case OutputFile_Write fs f buffer handler s1 of
             (written, s2) \<Rightarrow>
               (case Close fs f handler s2 of
                  (closed, s3) \<Rightarrow>
                    if written \<and> closed then ((True, filename f), s3)
                    else ((False, []), s3))))"

text \<open>
  Modelled from the spec: the body of \<^verbatim>\<open>WriteFileAtomic\<close>, which is not in the
  header. It writes the full content to a temporary path derived from the target
  file name (the target's name is the prefix of the temporary file, so the
  target's parent directories are made before the temporary file is), and then
  renames the temporary path onto the target path.
\<close>

definition WriteFileAtomic ::
  "('s, 'h) FileSystem \<Rightarrow> string \<Rightarrow> string \<Rightarrow> 'h \<Rightarrow> 's \<Rightarrow> bool \<times> 's" where
  "WriteFileAtomic fs file_name buffer handler s =
     (case WriteTempFile fs file_name buffer handler s of
        ((ok, temp_filename), s1) \<Rightarrow>
          if ok then RenameFile fs temp_filename file_name handler s1 else (False, s1))"

text \<open>
  Modelled from the spec: the body of the non-atomic \<^verbatim>\<open>WriteFile\<close>, which is not
  in the header: it opens the file for output (making its parent directories),
  writes, and closes.
\<close>

definition WriteFile ::
  "('s, 'h) FileSystem \<Rightarrow> string \<Rightarrow> string \<Rightarrow> 'h \<Rightarrow> 's \<Rightarrow> bool \<times> 's" where
  "WriteFile fs file_name buffer handler s =
     (case OpenOutputFile fs file_name handler s of
        (None, s1) \<Rightarrow> (False, s1)
      | (Some f, s1) \<Rightarrow>
          (case OutputFile_Write fs f buffer handler s1 of
             (written, s2) \<Rightarrow>
               (case Close fs f handler s2 of
                  (closed, s3) \<Rightarrow> (written \<and> closed, s3))))"

subsection \<open>Aggregating a directory tree\<close>

text \<open>
  Modelled from the spec: the directory tree that \<^verbatim>\<open>GetDirInfo\<close> walks, as
  \<^verbatim>\<open>ListContents\<close>, \<^verbatim>\<open>IsDir\<close>, \<^verbatim>\<open>Size\<close> and \<^verbatim>\<open>Atime\<close> would report it: an
  entry is a regular file with its size and access time, or a directory with its
  named entries in listing order. The tree is finite, so it has no circular links.
\<close>

datatype Node = RegularFile int64 int64 | Directory "(string \<times> Node) list"

text \<open>
  Modelled from the spec: the body of \<^verbatim>\<open>GetDirInfo\<close>, which is not in the header.
  Every regular file's metadata (size, access time, full path) is appended; every
  directory found to contain zero entries has its full path appended to the
  empty-directory list; total size and total entry count are accumulated across
  the whole subtree. The full path of an entry is the path of its directory,
  \<open>/\<close>, and its name. \<open>int64\<close> sums wrap around.
\<close>

fun walk :: "string \<Rightarrow> Node \<Rightarrow> DirInfo \<Rightarrow> DirInfo"
  and walk_entries :: "string \<Rightarrow> (string \<times> Node) list \<Rightarrow> DirInfo \<Rightarrow> DirInfo" where
  "walk path (RegularFile file_size file_atime) dirinfo =
     dirinfo\<lparr>files := files dirinfo
                 @ [\<lparr>FileInfo.size_bytes = file_size, atime_sec = file_atime, name = path\<rparr>],
             DirInfo.size_bytes := DirInfo.size_bytes dirinfo + file_size\<rparr>"
| "walk path (Directory entries) dirinfo =
     (if entries = [] then dirinfo\<lparr>empty_dirs := empty_dirs dirinfo @ [path]\<rparr>
      else walk_entries path entries dirinfo)"
| "walk_entries path [] dirinfo = dirinfo"
| "walk_entries path (entry # rest) dirinfo =
     walk_entries path rest
       (walk (path @ ''/'' @ fst entry) (snd entry)
          (dirinfo\<lparr>inode_count := inode_count dirinfo + 1\<rparr>))"

definition GetDirInfo :: "string \<Rightarrow> Node \<Rightarrow> DirInfo \<Rightarrow> DirInfo" where
  "GetDirInfo path root dirinfo =
     (case root of
        Directory entries \<Rightarrow> walk path root dirinfo
      | RegularFile _ _ \<Rightarrow> dirinfo)"

subsection \<open>A reference backend in memory\<close>

text \<open>
  Modelled from the spec: a backend, since the header has none (every method
  below is pure virtual in \<^verbatim>\<open>FileSystem\<close>, \<^verbatim>\<open>File\<close> or \<^verbatim>\<open>InputFile\<close>). Its state:
  the set of directories, the content of every regular file, for every held lock
  the time in milliseconds it was last claimed or bumped, the backend's clock, and
  a counter for the names of temporary files.
\<close>

record MemState =
  mem_dirs :: "string set"
  mem_files :: "string \<rightharpoonup> string"
  mem_locks :: "string \<rightharpoonup> int64"
  mem_clock_ms :: int64
  mem_temp_count :: nat

definition mem_empty :: MemState where
  "mem_empty = \<lparr>mem_dirs = {}, mem_files = Map.empty, mem_locks = Map.empty,
     mem_clock_ms = 0, mem_temp_count = 0\<rparr>"

text \<open>
  Modelled from the spec: \<^verbatim>\<open>OpenInputFile\<close> returns \<^verbatim>\<open>NULL\<close> for a path that is no
  regular file.
\<close>

definition mem_OpenInputFile :: "string \<Rightarrow> 'h \<Rightarrow> MemState \<Rightarrow> File option \<times> MemState" where
  "mem_OpenInputFile file_name handler s =
     (case mem_files s file_name of
        None \<Rightarrow> (None, s)
      | Some _ \<Rightarrow> (Some \<lparr>filename = file_name\<rparr>, s))"

text \<open>
  Modelled from the spec: \<^verbatim>\<open>InputFile::ReadFile\<close> reads entire file into buf,
  returning true if successful;  it fails when the content is larger than
  \<^verbatim>\<open>max_file_size\<close>, and \<^verbatim>\<open>kUnlimitedSize\<close> doesn't limit the read size. A
  failed read leaves the buffer as it was.
\<close>

definition exceeds_limit :: "int64 \<Rightarrow> string \<Rightarrow> bool" where
  "exceeds_limit max_file_size content =
     (max_file_size \<noteq> kUnlimitedSize \<and> sint max_file_size < int (length content))"

definition mem_InputFile_ReadFile ::
  "File \<Rightarrow> string \<Rightarrow> int64 \<Rightarrow> 'h \<Rightarrow> MemState \<Rightarrow> (bool \<times> string) \<times> MemState" where
  "mem_InputFile_ReadFile file buf max_file_size handler s =
     (case mem_files s (filename file) of
        None \<Rightarrow> ((False, buf), s)
      | Some content \<Rightarrow>
          if exceeds_limit max_file_size content then ((False, buf), s)
          else ((True, content), s))"

text \<open>Modelled from the spec: closing a handle in memory cannot fail.\<close>

definition mem_File_Close :: "File \<Rightarrow> 'h \<Rightarrow> MemState \<Rightarrow> bool \<times> MemState" where
  "mem_File_Close file handler s = (True, s)"

text \<open>
  Modelled from the spec: \<^verbatim>\<open>Exists\<close> (like POSIX \<open>test -e\<close>), \<^verbatim>\<open>IsDir\<close> (like
  POSIX \<open>test -d\<close>) and \<^verbatim>\<open>MakeDir\<close> (like POSIX \<open>mkdir\<close>, makes a directory only
  if parent directory exists; fails if the directory already exists or parent
  directory doesn't exist). A path with no \<open>/\<close> inside lies in the working
  directory (or in the root), which always exists.
\<close>

definition mem_exists :: "MemState \<Rightarrow> string \<Rightarrow> bool" where
  "mem_exists s path = (path \<in> mem_dirs s \<or> mem_files s path \<noteq> None)"

definition parent_exists :: "MemState \<Rightarrow> string \<Rightarrow> bool" where
  "parent_exists s path =
     (case parent_dir path of None \<Rightarrow> True | Some d \<Rightarrow> d \<in> mem_dirs s)"

definition mem_Exists :: "string \<Rightarrow> 'h \<Rightarrow> MemState \<Rightarrow> BoolOrError \<times> MemState" where
  "mem_Exists path handler s = (BoolOrError_bool (mem_exists s path), s)"

definition mem_IsDir :: "string \<Rightarrow> 'h \<Rightarrow> MemState \<Rightarrow> BoolOrError \<times> MemState" where
  "mem_IsDir path handler s = (BoolOrError_bool (path \<in> mem_dirs s), s)"

definition mem_MakeDir :: "string \<Rightarrow> 'h \<Rightarrow> MemState \<Rightarrow> bool \<times> MemState" where
  "mem_MakeDir directory_path handler s =
     (if mem_exists s directory_path \<or> \<not> parent_exists s directory_path then (False, s)
      else (True, s\<lparr>mem_dirs := insert directory_path (mem_dirs s)\<rparr>))"

text \<open>
  Modelled from the spec: the open helpers may assume the directory already
  exists;  as in POSIX, they fail when it does not, or when the path is a
  directory. Opening for output empties the file, opening for append keeps its
  content.
\<close>

definition mem_OpenOutputFileHelper ::
  "string \<Rightarrow> bool \<Rightarrow> 'h \<Rightarrow> MemState \<Rightarrow> File option \<times> MemState" where
  "mem_OpenOutputFileHelper file_name appending handler s =
     (if file_name \<in> mem_dirs s \<or> \<not> parent_exists s file_name then (None, s)
      else (Some \<lparr>filename = file_name\<rparr>,
            s\<lparr>mem_files := (mem_files s)(file_name \<mapsto>
                 (if appending then (case mem_files s file_name of None \<Rightarrow> [] | Some c \<Rightarrow> c)
                  else []))\<rparr>))"

text \<open>
  Modelled from the spec: a temporary file is a uniquely named file under that
  prefix: the prefix followed by the decimal digits of a counter that grows
  with every call. The open fails when that name is taken.
\<close>

fun decimal :: "nat \<Rightarrow> string" where
  "decimal n =
     (if n < 10 then [''0123456789'' ! n]
      else decimal (n div 10) @ [''0123456789'' ! (n mod 10)])"

declare decimal.simps [simp del]

definition mem_OpenTempFileHelper ::
  "string \<Rightarrow> 'h \<Rightarrow> MemState \<Rightarrow> File option \<times> MemState" where
  "mem_OpenTempFileHelper prefix_name handler s =
     (let temp_name = prefix_name @ decimal (mem_temp_count s);
          s1 = s\<lparr>mem_temp_count := Suc (mem_temp_count s)\<rparr>
      in if mem_exists s1 temp_name \<or> \<not> parent_exists s1 temp_name then (None, s1)
         else (Some \<lparr>filename = temp_name\<rparr>,
               s1\<lparr>mem_files := (mem_files s1)(temp_name \<mapsto> [])\<rparr>))"

text \<open>
  Modelled from the spec: \<^verbatim>\<open>OutputFile::Write\<close> appends the bytes to the file
  behind the handle and fails when that file is gone. \<^verbatim>\<open>Write\<close> is not atomic:
  \<open>mem_write_states\<close> lists the states the storage passes through while the
  bytes of one \<^verbatim>\<open>Write\<close> arrive one after the other.
\<close>

definition mem_OutputFile_Write :: "File \<Rightarrow> string \<Rightarrow> 'h \<Rightarrow> MemState \<Rightarrow> bool \<times> MemState" where
  "mem_OutputFile_Write file buf handler s =
     (case mem_files s (filename file) of
        None \<Rightarrow> (False, s)
      | Some content \<Rightarrow>
          (True, s\<lparr>mem_files := (mem_files s)(filename file \<mapsto> content @ buf)\<rparr>))"

fun mem_write_states :: "File \<Rightarrow> string \<Rightarrow> 'h \<Rightarrow> MemState \<Rightarrow> MemState list" where
  "mem_write_states file [] handler s = []"
| "mem_write_states file (c # cs) handler s =
     (let s1 = snd (mem_OutputFile_Write file [c] handler s)
      in s1 # mem_write_states file cs handler s1)"

text \<open>
  Modelled from the spec: \<^verbatim>\<open>RenameFileHelper\<close>, the backend's rename, in one
  step: the content of the old path becomes the content of the new path and the
  old path is gone. It fails when the old path is no regular file, when the new
  path is a directory, or when the directory of the new path does not exist.
\<close>

definition mem_RenameFileHelper ::
  "string \<Rightarrow> string \<Rightarrow> 'h \<Rightarrow> MemState \<Rightarrow> bool \<times> MemState" where
  "mem_RenameFileHelper old_filename new_filename handler s =
     (case mem_files s old_filename of
        None \<Rightarrow> (False, s)
      | Some content \<Rightarrow>
          if new_filename \<in> mem_dirs s \<or> \<not> parent_exists s new_filename then (False, s)
          else (True, s\<lparr>mem_files :=
                  (mem_files s)(old_filename := None, new_filename \<mapsto> content)\<rparr>))"

text \<open>
  Modelled from the spec: \<^verbatim>\<open>TryLock\<close> claims a free name and returns true, and
  returns false for a name somebody holds; \<^verbatim>\<open>Unlock\<close> releases a held name and
  returns true, and returns false when there is nothing to release. In memory no
  call fails, so \<^verbatim>\<open>TryLock\<close> never returns the error value.
\<close>

definition mem_TryLock :: "string \<Rightarrow> 'h \<Rightarrow> MemState \<Rightarrow> BoolOrError \<times> MemState" where
  "mem_TryLock lock_name handler s =
     (case mem_locks s lock_name of
        Some _ \<Rightarrow> (BoolOrError_bool False, s)
      | None \<Rightarrow> (BoolOrError_bool True,
                  s\<lparr>mem_locks := (mem_locks s)(lock_name \<mapsto> mem_clock_ms s)\<rparr>))"

definition mem_Unlock :: "string \<Rightarrow> 'h \<Rightarrow> MemState \<Rightarrow> bool \<times> MemState" where
  "mem_Unlock lock_name handler s =
     (case mem_locks s lock_name of
        Some _ \<Rightarrow> (True, s\<lparr>mem_locks := (mem_locks s)(lock_name := None)\<rparr>)
      | None \<Rightarrow> (False, s))"

text \<open>
  The backend as an instance of the interface. It overrides none of the methods
  the header implements: its \<^verbatim>\<open>TryLockWithTimeout\<close> and \<^verbatim>\<open>BumpLockTimeout\<close> are
  the defaults above.
\<close>

definition mem_fs :: "(MemState, 'h) FileSystem" where
  "mem_fs = \<lparr>OpenInputFile = mem_OpenInputFile,
             InputFile_ReadFile = mem_InputFile_ReadFile,
             File_Close = mem_File_Close,
             MakeDir = mem_MakeDir,
             Exists = mem_Exists,
             IsDir = mem_IsDir,
             TryLock = mem_TryLock,
             Unlock = mem_Unlock,
             OpenOutputFileHelper = mem_OpenOutputFileHelper,
             OpenTempFileHelper = mem_OpenTempFileHelper,
             OutputFile_Write = mem_OutputFile_Write,
             RenameFileHelper = mem_RenameFileHelper\<rparr>"

text \<open>
  What a reader racing a writer can find: the states of the storage while
  \<^verbatim>\<open>WriteFileAtomic\<close> (or \<^verbatim>\<open>WriteFile\<close>) runs on the reference backend, in order,
  from the state before the call to the state after it. Every call of the backend
  is one step, except \<^verbatim>\<open>Write\<close>, which takes a step for every byte. (The
  directories \<^verbatim>\<open>SetupFileDir\<close> makes are made one by one, which changes no
  file; the list shows the state after all of them.)
\<close>

definition WriteFileAtomic_states ::
  "string \<Rightarrow> string \<Rightarrow> 'h \<Rightarrow> MemState \<Rightarrow> MemState list" where
  "WriteFileAtomic_states file_name buffer handler s =
     (let s0 = SetupFileDir mem_fs file_name handler s
      in case OpenTempFileHelper mem_fs file_name handler s0 of
           (None, s1) \<Rightarrow> [s, s0, s1]
         | (Some f, s1) \<Rightarrow>
             (let written = mem_write_states f buffer handler s1;
                  s2 = last (s1 # written);
                  s3 = snd (Close mem_fs f handler s2);
                  s4 = SetupFileDir mem_fs file_name handler s3;
                  s5 = snd (RenameFileHelper mem_fs (filename f) file_name handler s4)
              in [s, s0, s1] @ written @ [s3, s4, s5]))"

definition WriteFile_states ::
  "string \<Rightarrow> string \<Rightarrow> 'h \<Rightarrow> MemState \<Rightarrow> MemState list" where
  "WriteFile_states file_name buffer handler s =
     (let s0 = SetupFileDir mem_fs file_name handler s
      in case OpenOutputFileHelper mem_fs file_name False handler s0 of
           (None, s1) \<Rightarrow> [s, s0, s1]
         | (Some f, s1) \<Rightarrow>
             (let written = mem_write_states f buffer handler s1;
                  s2 = last (s1 # written);
                  s3 = snd (Close mem_fs f handler s2)
              in [s, s0, s1] @ written @ [s3]))"

subsection \<open>A backend that breaks stale locks\<close>

text \<open>
  Modelled from the spec: \<^verbatim>\<open>class Timer\<close>, which the header only declares: a
  source of the current time in milliseconds.
\<close>

record Timer =
  NowMs :: int64

text \<open>
  Modelled from the spec: the overrides of \<^verbatim>\<open>TryLockWithTimeout\<close> and
  \<^verbatim>\<open>BumpLockTimeout\<close> in a backend that breaks locks; the header holds only the
  defaults. A lock is stale if it was taken (or last bumped) more than
  \<^verbatim>\<open>timeout_millis\<close> ms ago (the difference is taken in the integers, where it
  cannot overflow). A free or stale lock is claimed at the timer's time; a bump
  sets the time of a held lock to the backend's clock.
\<close>

definition stale :: "int64 \<Rightarrow> int64 \<Rightarrow> int64 \<Rightarrow> bool" where
  "stale now last_ms timeout_millis = (sint timeout_millis < sint now - sint last_ms)"

definition breaking_TryLockWithTimeout ::
  "string \<Rightarrow> int64 \<Rightarrow> Timer \<Rightarrow> 'h \<Rightarrow> MemState \<Rightarrow> BoolOrError \<times> MemState" where
  "breaking_TryLockWithTimeout lock_name timeout_millis timer handler s =
     (case mem_locks s lock_name of
        Some last_ms \<Rightarrow>
          if stale (NowMs timer) last_ms timeout_millis
          then (BoolOrError_bool True,
                s\<lparr>mem_locks := (mem_locks s)(lock_name \<mapsto> NowMs timer)\<rparr>)
          else (BoolOrError_bool False, s)
      | None \<Rightarrow> (BoolOrError_bool True,
                  s\<lparr>mem_locks := (mem_locks s)(lock_name \<mapsto> NowMs timer)\<rparr>))"

definition breaking_BumpLockTimeout :: "string \<Rightarrow> 'h \<Rightarrow> MemState \<Rightarrow> bool \<times> MemState" where
  "breaking_BumpLockTimeout lock_name handler s =
     (case mem_locks s lock_name of
        Some _ \<Rightarrow> (True, s\<lparr>mem_locks := (mem_locks s)(lock_name \<mapsto> mem_clock_ms s)\<rparr>)
      | None \<Rightarrow> (False, s))"

subsection \<open>Notions the properties are stated with\<close>

text \<open>Every directory of the state lies in a directory of the state.\<close>

definition parents_exist :: "MemState \<Rightarrow> bool" where
  "parents_exist s = (\<forall>d \<in> mem_dirs s. parent_exists s d)"

text \<open>A list of paths, each the parent directory of the next; \<open>par\<close> is the parent of the first.\<close>

fun chained :: "string list \<Rightarrow> string option \<Rightarrow> bool" where
  "chained [] par = True"
| "chained (d # ds) par = (parent_dir d = par \<and> chained ds (Some d))"

text \<open>
  What a walk of a tree has to report, by recursion on the tree: the regular files
  under a node with their full paths, the full paths of the empty directories, and
  the number of entries below the node.
\<close>

fun files_under :: "string \<Rightarrow> Node \<Rightarrow> FileInfo list"
  and files_among :: "string \<Rightarrow> (string \<times> Node) list \<Rightarrow> FileInfo list" where
  "files_under path (RegularFile file_size file_atime) =
     [\<lparr>FileInfo.size_bytes = file_size, atime_sec = file_atime, name = path\<rparr>]"
| "files_under path (Directory entries) = files_among path entries"
| "files_among path [] = []"
| "files_among path (entry # rest) =
     files_under (path @ ''/'' @ fst entry) (snd entry) @ files_among path rest"

fun empty_under :: "string \<Rightarrow> Node \<Rightarrow> string list"
  and empty_among :: "string \<Rightarrow> (string \<times> Node) list \<Rightarrow> string list" where
  "empty_under path (RegularFile file_size file_atime) = []"
| "empty_under path (Directory entries) =
     (if entries = [] then [path] else empty_among path entries)"
| "empty_among path [] = []"
| "empty_among path (entry # rest) =
     empty_under (path @ ''/'' @ fst entry) (snd entry) @ empty_among path rest"

fun entries_under :: "Node \<Rightarrow> nat"
  and entries_among :: "(string \<times> Node) list \<Rightarrow> nat" where
  "entries_under (RegularFile file_size file_atime) = 0"
| "entries_under (Directory entries) = entries_among entries"
| "entries_among [] = 0"
| "entries_among (entry # rest) = 1 + entries_under (snd entry) + entries_among rest"

definition total_size :: "FileInfo list \<Rightarrow> int64" where
  "total_size infos = sum_list (map FileInfo.size_bytes infos)"

text \<open>
  A tree as a file system holds it: the names in one directory differ from each
  other, and no name contains a \<open>/\<close>.
\<close>

fun well_formed :: "Node \<Rightarrow> bool"
  and well_formed_entries :: "(string \<times> Node) list \<Rightarrow> bool" where
  "well_formed (RegularFile file_size file_atime) = True"
| "well_formed (Directory entries) =
     (distinct (map fst entries) \<and> well_formed_entries entries)"
| "well_formed_entries [] = True"
| "well_formed_entries (entry # rest) =
     (CHR ''/'' \<notin> set (fst entry) \<and> well_formed (snd entry) \<and> well_formed_entries rest)"

text \<open>The path \<open>q\<close> is \<open>path\<close> itself or lies below it.\<close>

definition below :: "string \<Rightarrow> string \<Rightarrow> bool" where
  "below path q = (\<exists>r. q = path @ r \<and> (r = [] \<or> hd r = CHR ''/''))"

section \<open>Properties\<close>

subsection \<open>The three-way result\<close>

text \<open>
  Claim C7. A default-constructed \<^verbatim>\<open>BoolOrError\<close> is in the error state; one
  constructed from a boolean \<open>b\<close>, or set with \<^verbatim>\<open>set(b)\<close>, has
  \<^verbatim>\<open>is_true() = b\<close>, \<^verbatim>\<open>is_false() = !b\<close> and \<^verbatim>\<open>is_error() = false\<close>;
  \<^verbatim>\<open>set_error()\<close> makes \<^verbatim>\<open>is_error()\<close> true; and every value is in exactly one
  of the three states.
\<close>

theorem BoolOrError_states:
  "(is_error BoolOrError_default \<and> \<not> is_true BoolOrError_default
      \<and> \<not> is_false BoolOrError_default)
   \<and> (is_true (BoolOrError_bool b) = b \<and> is_false (BoolOrError_bool b) = (\<not> b)
      \<and> is_error (BoolOrError_bool b) = False)
   \<and> (is_true (set_bool b x) = b \<and> is_false (set_bool b x) = (\<not> b)
      \<and> is_error (set_bool b x) = False)
   \<and> (is_error (set_error x) \<and> \<not> is_true (set_error x) \<and> \<not> is_false (set_error x))
   \<and> ((is_false x \<and> \<not> is_true x \<and> \<not> is_error x)
      \<or> (is_true x \<and> \<not> is_false x \<and> \<not> is_error x)
      \<or> (is_error x \<and> \<not> is_false x \<and> \<not> is_true x))"
proof -
  have states: "(is_false x \<and> \<not> is_true x \<and> \<not> is_error x)
      \<or> (is_true x \<and> \<not> is_false x \<and> \<not> is_error x)
      \<or> (is_error x \<and> \<not> is_false x \<and> \<not> is_true x)"
    by (cases "choice x") (simp_all add: is_error_def is_true_def is_false_def)
  have ctor: "is_error BoolOrError_default \<and> \<not> is_true BoolOrError_default
      \<and> \<not> is_false BoolOrError_default"
    by (simp add: BoolOrError_default_def is_error_def is_true_def is_false_def)
  have of_bool: "is_true (BoolOrError_bool b) = b \<and> is_false (BoolOrError_bool b) = (\<not> b)
      \<and> is_error (BoolOrError_bool b) = False"
    by (simp add: BoolOrError_bool_def is_error_def is_true_def is_false_def)
  have setter: "is_true (set_bool b x) = b \<and> is_false (set_bool b x) = (\<not> b)
      \<and> is_error (set_bool b x) = False"
    by (simp add: set_bool_def is_error_def is_true_def is_false_def)
  have err: "is_error (set_error x) \<and> \<not> is_true (set_error x) \<and> \<not> is_false (set_error x)"
    by (simp add: set_error_def is_error_def is_true_def is_false_def)
  from ctor of_bool setter err states show ?thesis by blast
qed

subsection \<open>The default lock methods\<close>

text \<open>
  Claim C2. The default \<^verbatim>\<open>TryLockWithTimeout\<close> behaves exactly like
  \<^verbatim>\<open>TryLock\<close>: for every lock name, timeout and timer it returns the result
  (and leaves the state) that \<^verbatim>\<open>TryLock(lock_name)\<close> does, so the timeout and the
  timer have no influence.
\<close>

theorem TryLockWithTimeout_default_is_TryLock:
  "TryLockWithTimeout fs lock_name timeout_millis timer handler s
     = TryLock fs lock_name handler s
   \<and> TryLockWithTimeout fs lock_name timeout_millis timer handler s
     = TryLockWithTimeout fs lock_name timeout_millis' timer' handler s"
  by (simp add: TryLockWithTimeout_def)

text \<open>
  Claim C10. The default \<^verbatim>\<open>BumpLockTimeout\<close> returns true for every lock name,
  calls no method of the backend and leaves the whole state as it was.
\<close>

theorem BumpLockTimeout_default_noop:
  "BumpLockTimeout fs lock_name handler s = (True, s)
   \<and> BumpLockTimeout fs lock_name handler s = BumpLockTimeout fs' lock_name handler s"
  by (simp add: BumpLockTimeout_def)

subsection \<open>Opening a file creates its directories\<close>

lemma prefixes_at_slash_append:
  "prefixes_at_slash acc (a @ b) = prefixes_at_slash acc a @ prefixes_at_slash (acc @ a) b"
  by (induction a arbitrary: acc) simp_all

lemma prefixes_at_slash_no_slash:
  "CHR ''/'' \<notin> set cs \<Longrightarrow> prefixes_at_slash acc cs = []"
  by (induction cs arbitrary: acc) auto

lemma ancestors_snoc:
  "ancestors (acc @ [c]) = ancestors acc @ (if c = CHR ''/'' \<and> acc \<noteq> [] then [acc] else [])"
  by (simp add: ancestors_def prefixes_at_slash_append)

lemma parent_dir_snoc:
  "parent_dir (acc @ [c]) = (if c = CHR ''/'' \<and> acc \<noteq> [] then Some acc else parent_dir acc)"
  by (simp add: parent_dir_def ancestors_snoc)

lemma chained_prefixes_at_slash:
  "chained (prefixes_at_slash acc cs) (parent_dir acc)"
proof (induction cs arbitrary: acc)
  case Nil
  then show ?case by simp
next
  case (Cons c cs)
  show ?case
  proof (cases "c = CHR ''/'' \<and> acc \<noteq> []")
    case True
    then have "parent_dir (acc @ [c]) = Some acc" by (simp add: parent_dir_snoc)
    with Cons.IH [of "acc @ [c]"] True show ?thesis by simp
  next
    case False
    then have "parent_dir (acc @ [c]) = parent_dir acc" by (auto simp: parent_dir_snoc)
    with Cons.IH [of "acc @ [c]"] False show ?thesis by auto
  qed
qed

lemma chained_ancestors: "chained (ancestors p) None"
  using chained_prefixes_at_slash [of "[]" p] by (simp add: ancestors_def parent_dir_def)

lemma chained_all_dirs:
  "chained ds par \<Longrightarrow> ds \<noteq> [] \<Longrightarrow> last ds \<in> mem_dirs s \<Longrightarrow> parents_exist s
     \<Longrightarrow> set ds \<subseteq> mem_dirs s"
proof (induction ds arbitrary: par)
  case Nil
  then show ?case by simp
next
  case (Cons d ds)
  show ?case
  proof (cases ds)
    case Nil
    with Cons.prems show ?thesis by simp
  next
    case (Cons e es)
    with Cons.prems Cons.IH [of "Some d"] have sub: "set ds \<subseteq> mem_dirs s" by simp
    from Cons \<open>chained (d # ds) par\<close> have "parent_dir e = Some d" by simp
    moreover from sub Cons have "e \<in> mem_dirs s" by simp
    ultimately have "d \<in> mem_dirs s"
      using \<open>parents_exist s\<close> by (auto simp: parents_exist_def parent_exists_def)
    with sub show ?thesis by simp
  qed
qed

lemma parent_exists_all_ancestors:
  assumes "parents_exist s" and "parent_exists s p"
  shows "set (ancestors p) \<subseteq> mem_dirs s"
proof (cases "ancestors p = []")
  case True
  then show ?thesis by simp
next
  case False
  with assms(2) have "last (ancestors p) \<in> mem_dirs s"
    by (simp add: parent_exists_def parent_dir_def)
  from chained_all_dirs [OF chained_ancestors False this assms(1)] show ?thesis .
qed

lemma mem_MakeDir_parents_exist:
  "parents_exist s \<Longrightarrow> parents_exist (snd (mem_MakeDir d h s))"
  by (auto simp: mem_MakeDir_def parents_exist_def parent_exists_def split: option.splits)

lemma make_dirs_parents_exist:
  "parents_exist s \<Longrightarrow> parents_exist (snd (make_dirs mem_fs ds h s))"
proof (induction ds arbitrary: s)
  case Nil
  then show ?case by simp
next
  case (Cons d ds)
  have ex: "Exists mem_fs d h s = (BoolOrError_bool (mem_exists s d), s)"
    by (simp add: mem_fs_def mem_Exists_def)
  have isd: "IsDir mem_fs d h s = (BoolOrError_bool (d \<in> mem_dirs s), s)"
    by (simp add: mem_fs_def mem_IsDir_def)
  have mk: "MakeDir mem_fs d h s = mem_MakeDir d h s"
    by (simp add: mem_fs_def)
  obtain made s2 where made: "mem_MakeDir d h s = (made, s2)"
    by (cases "mem_MakeDir d h s")
  with mem_MakeDir_parents_exist [OF Cons.prems, of d h] have p2: "parents_exist s2"
    by simp
  show ?case
    using Cons.IH [OF p2] Cons.IH [OF Cons.prems] Cons.prems p2
    by (simp add: ex isd mk made)
qed

lemma SetupFileDir_parents_exist:
  "parents_exist s \<Longrightarrow> parents_exist (SetupFileDir mem_fs p h s)"
  by (simp add: SetupFileDir_def RecursivelyMakeDir_def make_dirs_parents_exist
      split: option.splits)

lemma mem_OpenOutputFileHelper_Some:
  "mem_OpenOutputFileHelper p a h s = (Some f, s') \<Longrightarrow>
     parent_exists s p \<and> mem_dirs s' = mem_dirs s"
  by (auto simp: mem_OpenOutputFileHelper_def split: if_splits)

lemma decimal_no_slash: "CHR ''/'' \<notin> set (decimal n)"
proof (induction n rule: decimal.induct)
  case (1 n)
  have digit: "''0123456789'' ! d \<noteq> CHR ''/''" if "d < 10" for d
  proof -
    from that have "d \<in> {0, 1, 2, 3, 4, 5, 6, 7, 8, 9}" by auto
    then show ?thesis by auto
  qed
  show ?case
  proof (cases "n < 10")
    case True
    then show ?thesis using digit [of n] by (subst decimal.simps) simp
  next
    case False
    have "n mod 10 < 10" by simp
    with False 1 digit [of "n mod 10"] show ?thesis by (subst decimal.simps) simp
  qed
qed

lemma parent_dir_temp: "parent_dir (p @ decimal n) = parent_dir p"
  by (simp add: parent_dir_def ancestors_def prefixes_at_slash_append
      prefixes_at_slash_no_slash [OF decimal_no_slash])

lemma ancestors_temp: "ancestors (p @ decimal n) = ancestors p"
  by (simp add: ancestors_def prefixes_at_slash_append
      prefixes_at_slash_no_slash [OF decimal_no_slash])

lemma mem_OpenTempFileHelper_Some:
  assumes "mem_OpenTempFileHelper p h s = (Some f, s')"
  shows "parent_exists s p \<and> mem_dirs s' = mem_dirs s"
proof -
  define t where "t = p @ decimal (mem_temp_count s)"
  define s1 where "s1 = s\<lparr>mem_temp_count := Suc (mem_temp_count s)\<rparr>"
  have unfolded: "mem_OpenTempFileHelper p h s =
      (if mem_exists s1 t \<or> \<not> parent_exists s1 t then (None, s1)
       else (Some \<lparr>filename = t\<rparr>, s1\<lparr>mem_files := (mem_files s1)(t \<mapsto> [])\<rparr>))"
    by (simp add: mem_OpenTempFileHelper_def Let_def t_def s1_def)
  show ?thesis
  proof (cases "mem_exists s1 t \<or> \<not> parent_exists s1 t")
    case True
    with assms unfolded show ?thesis by simp
  next
    case False
    with assms unfolded have "s1\<lparr>mem_files := (mem_files s1)(t \<mapsto> [])\<rparr> = s'" by simp
    then have "mem_dirs s' = mem_dirs s1" by auto
    then have "mem_dirs s' = mem_dirs s" by (simp add: s1_def)
    moreover from False have "parent_exists s1 t" by simp
    then have "parent_exists s p"
      by (simp add: parent_exists_def parent_dir_temp t_def s1_def split: option.splits)
    ultimately show ?thesis by simp
  qed
qed

lemma OpenOutputFile_mem_ancestors:
  assumes "parents_exist s" and "OpenOutputFile mem_fs p h s = (Some f, s')"
  shows "set (ancestors p) \<subseteq> mem_dirs s'"
proof -
  define s1 where "s1 = SetupFileDir mem_fs p h s"
  have helper: "OpenOutputFileHelper mem_fs = mem_OpenOutputFileHelper"
    by (simp add: mem_fs_def)
  from assms(2) have "mem_OpenOutputFileHelper p False h s1 = (Some f, s')"
    unfolding OpenOutputFile_def Let_def helper s1_def .
  from mem_OpenOutputFileHelper_Some [OF this]
  have "parent_exists s1 p" and dirs: "mem_dirs s' = mem_dirs s1"
    by simp_all
  moreover have "parents_exist s1"
    unfolding s1_def using assms(1) by (rule SetupFileDir_parents_exist)
  ultimately have "set (ancestors p) \<subseteq> mem_dirs s1"
    using parent_exists_all_ancestors by blast
  with dirs show ?thesis by simp
qed


lemma OpenOutputFileForAppend_mem_ancestors:
  assumes "parents_exist s" and "OpenOutputFileForAppend mem_fs p h s = (Some f, s')"
  shows "set (ancestors p) \<subseteq> mem_dirs s'"
proof -
  define s1 where "s1 = SetupFileDir mem_fs p h s"
  have helper: "OpenOutputFileHelper mem_fs = mem_OpenOutputFileHelper"
    by (simp add: mem_fs_def)
  from assms(2) have "mem_OpenOutputFileHelper p True h s1 = (Some f, s')"
    unfolding OpenOutputFileForAppend_def Let_def helper s1_def .
  from mem_OpenOutputFileHelper_Some [OF this]
  have "parent_exists s1 p" and dirs: "mem_dirs s' = mem_dirs s1"
    by simp_all
  moreover have "parents_exist s1"
    unfolding s1_def using assms(1) by (rule SetupFileDir_parents_exist)
  ultimately have "set (ancestors p) \<subseteq> mem_dirs s1"
    using parent_exists_all_ancestors by blast
  with dirs show ?thesis by simp
qed

lemma OpenTempFile_mem_ancestors:
  assumes "parents_exist s" and "OpenTempFile mem_fs p h s = (Some f, s')"
  shows "set (ancestors p) \<subseteq> mem_dirs s'"
proof -
  define s1 where "s1 = SetupFileDir mem_fs p h s"
  have helper: "OpenTempFileHelper mem_fs = mem_OpenTempFileHelper"
    by (simp add: mem_fs_def)
  from assms(2) have "mem_OpenTempFileHelper p h s1 = (Some f, s')"
    unfolding OpenTempFile_def Let_def helper s1_def .
  from mem_OpenTempFileHelper_Some [OF this]
  have "parent_exists s1 p" and dirs: "mem_dirs s' = mem_dirs s1"
    by simp_all
  moreover have "parents_exist s1"
    unfolding s1_def using assms(1) by (rule SetupFileDir_parents_exist)
  ultimately have "set (ancestors p) \<subseteq> mem_dirs s1"
    using parent_exists_all_ancestors by blast
  with dirs show ?thesis by simp
qed

lemma prefixes_at_slash_elem:
  "x \<in> set (prefixes_at_slash acc cs) \<Longrightarrow> \<exists>c1 c2. cs = c1 @ CHR ''/'' # c2 \<and> x = acc @ c1"
proof (induction cs arbitrary: acc)
  case Nil
  then show ?case by simp
next
  case (Cons c cs)
  show ?case
  proof (cases "x \<in> set (prefixes_at_slash (acc @ [c]) cs)")
    case True
    from Cons.IH [OF this] obtain c1 c2 where "cs = c1 @ CHR ''/'' # c2" "x = (acc @ [c]) @ c1"
      by blast
    then have "c # cs = (c # c1) @ CHR ''/'' # c2 \<and> x = acc @ (c # c1)" by simp
    then show ?thesis by blast
  next
    case False
    with Cons.prems have "c = CHR ''/''" "x = acc" by (auto split: if_splits)
    then have "c # cs = [] @ CHR ''/'' # cs \<and> x = acc @ []" by simp
    then show ?thesis by blast
  qed
qed

lemma ancestors_of_ancestor:
  assumes "x \<in> set (ancestors p)"
  shows "set (ancestors x) \<subseteq> set (ancestors p)" and "x \<noteq> p"
proof -
  from assms obtain c1 c2 where p: "p = c1 @ CHR ''/'' # c2" and x: "x = c1"
    using prefixes_at_slash_elem [of x "[]" p] by (auto simp: ancestors_def)
  have "prefixes_at_slash [] (c1 @ CHR ''/'' # c2)
      = prefixes_at_slash [] c1 @ prefixes_at_slash c1 (CHR ''/'' # c2)"
    using prefixes_at_slash_append [of "[]" c1 "CHR ''/'' # c2"] by simp
  then have "ancestors p = ancestors x @ prefixes_at_slash x (CHR ''/'' # c2)"
    unfolding ancestors_def p x .
  then have "set (ancestors p)
      = set (ancestors x) \<union> set (prefixes_at_slash x (CHR ''/'' # c2))"
    by (simp only: set_append)
  then show "set (ancestors x) \<subseteq> set (ancestors p)" by blast
  show "x \<noteq> p" unfolding p x by simp
qed

lemma chained_snoc:
  "chained ds par \<Longrightarrow> parent_dir d = (if ds = [] then par else Some (last ds))
     \<Longrightarrow> chained (ds @ [d]) par"
  by (induction ds arbitrary: par) auto

lemma chained_dir_chain: "chained (ancestors d @ [d]) None"
  by (rule chained_snoc [OF chained_ancestors]) (simp add: parent_dir_def)

lemma make_dirs_chained:
  assumes "chained ds par"
    and "case par of None \<Rightarrow> True | Some q \<Rightarrow> q \<in> mem_dirs s"
    and "\<forall>d \<in> set ds. mem_files s d = None"
  shows "fst (make_dirs mem_fs ds h s)
     \<and> mem_dirs (snd (make_dirs mem_fs ds h s)) = mem_dirs s \<union> set ds
     \<and> mem_files (snd (make_dirs mem_fs ds h s)) = mem_files s"
  using assms
proof (induction ds arbitrary: s par)
  case Nil
  then show ?case by simp
next
  case (Cons d ds)
  have ex: "Exists mem_fs d h s = (BoolOrError_bool (mem_exists s d), s)"
    by (simp add: mem_fs_def mem_Exists_def)
  have isd: "IsDir mem_fs d h s = (BoolOrError_bool (d \<in> mem_dirs s), s)"
    by (simp add: mem_fs_def mem_IsDir_def)
  have mk: "MakeDir mem_fs d h s = mem_MakeDir d h s"
    by (simp add: mem_fs_def)
  from Cons.prems have par: "parent_dir d = par" and ch: "chained ds (Some d)"
    and nofile: "mem_files s d = None" by simp_all
  show ?case
  proof (cases "d \<in> mem_dirs s")
    case True
    from Cons.IH [OF ch, of s] True Cons.prems(3)
    have "fst (make_dirs mem_fs ds h s)
        \<and> mem_dirs (snd (make_dirs mem_fs ds h s)) = mem_dirs s \<union> set ds
        \<and> mem_files (snd (make_dirs mem_fs ds h s)) = mem_files s" by simp
    with True show ?thesis
      by (auto simp: ex isd mem_exists_def BoolOrError_bool_def is_false_def is_true_def)
  next
    case False
    define s2 where "s2 = s\<lparr>mem_dirs := insert d (mem_dirs s)\<rparr>"
    from False nofile par Cons.prems(2) have made: "mem_MakeDir d h s = (True, s2)"
      by (simp add: mem_MakeDir_def mem_exists_def parent_exists_def s2_def)
    from Cons.IH [OF ch, of s2] Cons.prems(3)
    have "fst (make_dirs mem_fs ds h s2)
        \<and> mem_dirs (snd (make_dirs mem_fs ds h s2)) = mem_dirs s2 \<union> set ds
        \<and> mem_files (snd (make_dirs mem_fs ds h s2)) = mem_files s2" by (simp add: s2_def)
    with False nofile show ?thesis
      by (auto simp: ex mk made mem_exists_def BoolOrError_bool_def is_false_def s2_def)
  qed
qed

lemma SetupFileDir_mem_creates:
  assumes "parents_exist s" and "\<forall>a \<in> set (ancestors p). mem_files s a = None"
  shows "mem_dirs (SetupFileDir mem_fs p h s) = mem_dirs s \<union> set (ancestors p)
     \<and> mem_files (SetupFileDir mem_fs p h s) = mem_files s"
proof (cases "ancestors p = []")
  case True
  then show ?thesis by (simp add: SetupFileDir_def parent_dir_def)
next
  case False
  define d where "d = last (ancestors p)"
  define s1 where "s1 = SetupFileDir mem_fs p h s"
  from False have d_in: "d \<in> set (ancestors p)" by (simp add: d_def)
  from ancestors_of_ancestor(1) [OF d_in] d_in
  have sub: "set (ancestors d @ [d]) \<subseteq> set (ancestors p)" by simp
  with assms(2) have nofile: "\<forall>a \<in> set (ancestors d @ [d]). mem_files s a = None" by blast
  have s1: "s1 = snd (make_dirs mem_fs (ancestors d @ [d]) h s)"
    using False by (simp add: s1_def SetupFileDir_def parent_dir_def RecursivelyMakeDir_def d_def)
  from make_dirs_chained [OF chained_dir_chain _ nofile, of h]
  have made: "mem_dirs s1 = mem_dirs s \<union> set (ancestors d @ [d])"
    and same: "mem_files s1 = mem_files s"
    by (simp_all add: s1)
  from made have "d \<in> mem_dirs s1" by simp
  then have "parent_exists s1 p" using False by (simp add: parent_exists_def parent_dir_def d_def)
  moreover have "parents_exist s1"
    unfolding s1_def using assms(1) by (rule SetupFileDir_parents_exist)
  ultimately have "set (ancestors p) \<subseteq> mem_dirs s1"
    using parent_exists_all_ancestors by blast
  with made sub have "mem_dirs s1 = mem_dirs s \<union> set (ancestors p)" by auto
  with same show ?thesis by (simp add: s1_def)
qed

lemma OpenOutputFile_mem_succeeds:
  assumes "parents_exist s" and "\<forall>a \<in> set (ancestors p). mem_files s a = None"
    and "p \<notin> mem_dirs s"
  shows "fst (OpenOutputFile mem_fs p h s) = Some \<lparr>filename = p\<rparr>"
    and "fst (OpenOutputFileForAppend mem_fs p h s) = Some \<lparr>filename = p\<rparr>"
proof -
  define s1 where "s1 = SetupFileDir mem_fs p h s"
  from SetupFileDir_mem_creates [OF assms(1,2), of h]
  have dirs: "mem_dirs s1 = mem_dirs s \<union> set (ancestors p)" by (simp add: s1_def)
  have "p \<notin> set (ancestors p)" using ancestors_of_ancestor(2) [of p p] by blast
  with dirs assms(3) have notdir: "p \<notin> mem_dirs s1" by simp
  from dirs have par: "parent_exists s1 p"
    by (simp add: parent_exists_def parent_dir_def)
  have helper: "OpenOutputFileHelper mem_fs = mem_OpenOutputFileHelper"
    by (simp add: mem_fs_def)
  from notdir par show "fst (OpenOutputFile mem_fs p h s) = Some \<lparr>filename = p\<rparr>"
    unfolding OpenOutputFile_def Let_def helper s1_def [symmetric]
    by (simp add: mem_OpenOutputFileHelper_def)
  from notdir par show "fst (OpenOutputFileForAppend mem_fs p h s) = Some \<lparr>filename = p\<rparr>"
    unfolding OpenOutputFileForAppend_def Let_def helper s1_def [symmetric]
    by (simp add: mem_OpenOutputFileHelper_def)
qed

lemma decimal_0: "decimal 0 = ''0''"
  by (subst decimal.simps) simp

lemmas mem_eval = mem_fs_def mem_empty_def OpenOutputFile_def OpenOutputFileForAppend_def
  OpenTempFile_def SetupFileDir_def RecursivelyMakeDir_def
  parent_dir_def ancestors_def mem_Exists_def mem_IsDir_def mem_MakeDir_def mem_exists_def
  parent_exists_def mem_OpenOutputFileHelper_def mem_OpenTempFileHelper_def
  BoolOrError_bool_def is_true_def is_false_def Let_def decimal_0

text \<open>
  Claim C8. Each of \<^verbatim>\<open>OpenOutputFile\<close>, \<^verbatim>\<open>OpenOutputFileForAppend\<close> and
  \<^verbatim>\<open>OpenTempFile\<close> first runs \<^verbatim>\<open>SetupFileDir\<close> on the destination and then hands
  the resulting state to the backend's open helper (for every backend). On the
  reference backend, from a state in which every directory has its parent, every
  ancestor directory of the destination exists after an open that succeeded; and
  an open for output or append does succeed, ancestors missing or not, when no
  ancestor of the destination is a regular file and the destination is not a
  directory.
\<close>

theorem open_sets_up_file_dir:
  "OpenOutputFile fs file_name handler s
     = OpenOutputFileHelper fs file_name False handler (SetupFileDir fs file_name handler s)
   \<and> OpenOutputFileForAppend fs file_name handler s
     = OpenOutputFileHelper fs file_name True handler (SetupFileDir fs file_name handler s)
   \<and> OpenTempFile fs file_name handler s
     = OpenTempFileHelper fs file_name handler (SetupFileDir fs file_name handler s)
   \<and> (parents_exist m \<longrightarrow>
        (OpenOutputFile mem_fs file_name handler m = (Some f, m')
           \<longrightarrow> set (ancestors file_name) \<subseteq> mem_dirs m')
      \<and> (OpenOutputFileForAppend mem_fs file_name handler m = (Some f, m')
           \<longrightarrow> set (ancestors file_name) \<subseteq> mem_dirs m')
      \<and> (OpenTempFile mem_fs file_name handler m = (Some f, m')
           \<longrightarrow> set (ancestors file_name) \<subseteq> mem_dirs m')
      \<and> ((\<forall>a \<in> set (ancestors file_name). mem_files m a = None) \<and> file_name \<notin> mem_dirs m
           \<longrightarrow> fst (OpenOutputFile mem_fs file_name handler m) = Some \<lparr>filename = file_name\<rparr>
             \<and> fst (OpenOutputFileForAppend mem_fs file_name handler m)
                 = Some \<lparr>filename = file_name\<rparr>))"
proof -
  have "OpenOutputFile fs file_name handler s
     = OpenOutputFileHelper fs file_name False handler (SetupFileDir fs file_name handler s)"
    by (simp add: OpenOutputFile_def)
  moreover have "OpenOutputFileForAppend fs file_name handler s
     = OpenOutputFileHelper fs file_name True handler (SetupFileDir fs file_name handler s)"
    by (simp add: OpenOutputFileForAppend_def)
  moreover have "OpenTempFile fs file_name handler s
     = OpenTempFileHelper fs file_name handler (SetupFileDir fs file_name handler s)"
    by (simp add: OpenTempFile_def)
  ultimately show ?thesis
    using OpenOutputFile_mem_ancestors [of m file_name handler f m']
      OpenOutputFileForAppend_mem_ancestors [of m file_name handler f m']
      OpenTempFile_mem_ancestors [of m file_name handler f m']
      OpenOutputFile_mem_succeeds [of m file_name handler]
    by blast
qed

theorem open_sets_up_file_dir_witness:
  "parents_exist mem_empty
   \<and> mem_dirs mem_empty = {}
   \<and> ancestors ''a/b/c.txt'' = [''a'', ''a/b'']
   \<and> OpenOutputFile mem_fs ''a/b/c.txt'' () mem_empty
       = (Some \<lparr>filename = ''a/b/c.txt''\<rparr>,
          mem_empty\<lparr>mem_dirs := {''a/b'', ''a''}, mem_files := [''a/b/c.txt'' \<mapsto> []]\<rparr>)
   \<and> set (ancestors ''a/b/c.txt'')
       \<subseteq> mem_dirs (mem_empty\<lparr>mem_dirs := {''a/b'', ''a''}, mem_files := [''a/b/c.txt'' \<mapsto> []]\<rparr>)
   \<and> fst (OpenOutputFileForAppend mem_fs ''a/b/c.txt'' () mem_empty)
       = Some \<lparr>filename = ''a/b/c.txt''\<rparr>
   \<and> OpenTempFile mem_fs ''/x/y/tmp'' () mem_empty
       = (Some \<lparr>filename = ''/x/y/tmp0''\<rparr>,
          mem_empty\<lparr>mem_dirs := {''/x/y'', ''/x''}, mem_temp_count := 1,
            mem_files := [''/x/y/tmp0'' \<mapsto> []]\<rparr>)"
proof -
  let ?m' = "mem_empty\<lparr>mem_dirs := {''a/b'', ''a''}, mem_files := [''a/b/c.txt'' \<mapsto> []]\<rparr>"
  have inv: "parents_exist mem_empty"
    by (simp add: parents_exist_def mem_empty_def)
  have anc: "ancestors ''a/b/c.txt'' = [''a'', ''a/b'']"
    by (simp add: ancestors_def)
  have opened: "OpenOutputFile mem_fs ''a/b/c.txt'' () mem_empty
      = (Some \<lparr>filename = ''a/b/c.txt''\<rparr>, ?m')"
    by (simp add: mem_eval)
  have temp: "OpenTempFile mem_fs ''/x/y/tmp'' () mem_empty
      = (Some \<lparr>filename = ''/x/y/tmp0''\<rparr>,
         mem_empty\<lparr>mem_dirs := {''/x/y'', ''/x''}, mem_temp_count := 1,
           mem_files := [''/x/y/tmp0'' \<mapsto> []]\<rparr>)"
    by (simp add: mem_eval)
  have free: "(\<forall>a \<in> set (ancestors ''a/b/c.txt''). mem_files mem_empty a = None)
      \<and> ''a/b/c.txt'' \<notin> mem_dirs mem_empty"
    by (simp add: mem_empty_def)
  from open_sets_up_file_dir [of mem_fs "''a/b/c.txt''" "()" mem_empty mem_empty
      "\<lparr>filename = ''a/b/c.txt''\<rparr>" ?m'] inv opened free
  have "set (ancestors ''a/b/c.txt'') \<subseteq> mem_dirs ?m'"
    and "fst (OpenOutputFileForAppend mem_fs ''a/b/c.txt'' () mem_empty)
       = Some \<lparr>filename = ''a/b/c.txt''\<rparr>"
    by blast+
  with inv anc opened temp show ?thesis by (simp add: mem_empty_def)
qed

subsection \<open>Locks\<close>

text \<open>
  Claim C3. On the reference backend, for a lock name that nobody holds: a first
  \<^verbatim>\<open>TryLock\<close> returns true, a second \<^verbatim>\<open>TryLock\<close> of the same name before any
  \<^verbatim>\<open>Unlock\<close> returns false, the \<^verbatim>\<open>Unlock\<close> succeeds, and a \<^verbatim>\<open>TryLock\<close> after it
  returns true again, whatever the clock shows between the calls.
\<close>

theorem mem_TryLock_Unlock_cycle:
  assumes "mem_locks s lock_name = None"
  shows "(let (r1, s1) = TryLock mem_fs lock_name h s;
              (r2, s2) = TryLock mem_fs lock_name h (s1\<lparr>mem_clock_ms := t1\<rparr>);
              (u, s3) = Unlock mem_fs lock_name h (s2\<lparr>mem_clock_ms := t2\<rparr>);
              (r3, s4) = TryLock mem_fs lock_name h (s3\<lparr>mem_clock_ms := t3\<rparr>)
          in is_true r1 \<and> is_false r2 \<and> u \<and> is_true r3)"
  using assms
  by (simp add: mem_fs_def mem_TryLock_def mem_Unlock_def BoolOrError_bool_def
      is_true_def is_false_def)

theorem mem_TryLock_Unlock_cycle_witness:
  "mem_locks mem_empty ''cache.lock'' = None
   \<and> (let (r1, s1) = TryLock mem_fs ''cache.lock'' () mem_empty;
            (r2, s2) = TryLock mem_fs ''cache.lock'' () (s1\<lparr>mem_clock_ms := 5\<rparr>);
            (u, s3) = Unlock mem_fs ''cache.lock'' () (s2\<lparr>mem_clock_ms := 7\<rparr>);
            (r3, s4) = TryLock mem_fs ''cache.lock'' () (s3\<lparr>mem_clock_ms := 9\<rparr>)
        in is_true r1 \<and> is_false r2 \<and> u \<and> is_true r3)"
proof -
  have free: "mem_locks mem_empty ''cache.lock'' = None"
    by (simp add: mem_empty_def)
  from mem_TryLock_Unlock_cycle [OF free, of "()" 5 7 9] free show ?thesis by simp
qed

text \<open>
  Claim C4, as stated, fails on the \<^verbatim>\<open>TryLockWithTimeout\<close> of the header: a first
  party claims the lock at time 0, and a second party that calls the default
  \<^verbatim>\<open>TryLockWithTimeout\<close> with a timeout of 10 ms at time 100 is refused.
\<close>

theorem TryLockWithTimeout_default_no_takeover:
  "is_true (fst (TryLock mem_fs ''cache.lock'' () mem_empty))
   \<and> is_false (fst (TryLockWithTimeout mem_fs ''cache.lock'' 10 \<lparr>NowMs = 100\<rparr> ()
          (snd (TryLock mem_fs ''cache.lock'' () mem_empty))))
   \<and> \<not> is_true (fst (TryLockWithTimeout mem_fs ''cache.lock'' 10 \<lparr>NowMs = 100\<rparr> ()
          (snd (TryLock mem_fs ''cache.lock'' () mem_empty))))"
  by (simp add: TryLockWithTimeout_def mem_fs_def mem_TryLock_def mem_empty_def
      BoolOrError_bool_def is_true_def is_false_def)

text \<open>
  Claim C4, amended. For every backend, the default \<^verbatim>\<open>TryLockWithTimeout\<close> is
  refused whenever \<^verbatim>\<open>TryLock\<close> is, whatever the timeout and the timer. On the
  reference backend a successful \<^verbatim>\<open>TryLock\<close> records the time of the claim, and
  a bump of a held lock records the time of the bump. For a lock held since
  \<open>last_ms\<close> (the time of the claim or of the last bump): the default
  \<^verbatim>\<open>TryLockWithTimeout\<close> returns false and changes nothing, so it never takes a
  lock over; the \<^verbatim>\<open>TryLockWithTimeout\<close> of a backend that breaks stale locks
  returns false and changes nothing while at most \<open>timeout_millis\<close> ms have
  passed, and returns true and records the new claim once more than
  \<open>timeout_millis\<close> ms have passed.
\<close>

theorem TryLockWithTimeout_held_lock:
  "(is_false (fst (TryLock fs lock_name h b)) \<longrightarrow>
      is_false (fst (TryLockWithTimeout fs lock_name timeout_millis timer h b)))
   \<and> (mem_locks s lock_name = None \<longrightarrow>
      mem_locks (snd (TryLock mem_fs lock_name h s)) lock_name = Some (mem_clock_ms s))
   \<and> (mem_locks s lock_name = Some last_ms \<longrightarrow>
      fst (breaking_BumpLockTimeout lock_name h s)
      \<and> mem_locks (snd (breaking_BumpLockTimeout lock_name h s)) lock_name
          = Some (mem_clock_ms s)
      \<and> is_false (fst (TryLockWithTimeout mem_fs lock_name timeout_millis timer h s))
      \<and> snd (TryLockWithTimeout mem_fs lock_name timeout_millis timer h s) = s
      \<and> (sint (NowMs clock) - sint last_ms \<le> sint timeout_millis \<longrightarrow>
           is_false (fst (breaking_TryLockWithTimeout lock_name timeout_millis clock h s))
           \<and> snd (breaking_TryLockWithTimeout lock_name timeout_millis clock h s) = s)
      \<and> (sint timeout_millis < sint (NowMs clock) - sint last_ms \<longrightarrow>
           is_true (fst (breaking_TryLockWithTimeout lock_name timeout_millis clock h s))
           \<and> mem_locks (snd (breaking_TryLockWithTimeout lock_name timeout_millis clock h s))
                lock_name = Some (NowMs clock)))"
  by (simp add: TryLockWithTimeout_def mem_fs_def mem_TryLock_def breaking_BumpLockTimeout_def
      breaking_TryLockWithTimeout_def stale_def BoolOrError_bool_def is_true_def is_false_def)

theorem TryLockWithTimeout_held_lock_witness:
  "mem_locks mem_empty ''cache.lock'' = None
   \<and> mem_locks (snd (TryLock mem_fs ''cache.lock'' () mem_empty)) ''cache.lock'' = Some 0
   \<and> is_false (fst (TryLockWithTimeout mem_fs ''cache.lock'' 10 \<lparr>NowMs = 100\<rparr> ()
         (snd (TryLock mem_fs ''cache.lock'' () mem_empty))))
   \<and> sint (NowMs \<lparr>NowMs = 5\<rparr>) - sint (0 :: int64) \<le> sint (10 :: int64)
   \<and> is_false (fst (breaking_TryLockWithTimeout ''cache.lock'' 10 \<lparr>NowMs = 5\<rparr> ()
         (snd (TryLock mem_fs ''cache.lock'' () mem_empty))))
   \<and> sint (10 :: int64) < sint (NowMs \<lparr>NowMs = 100\<rparr>) - sint (0 :: int64)
   \<and> is_true (fst (breaking_TryLockWithTimeout ''cache.lock'' 10 \<lparr>NowMs = 100\<rparr> ()
         (snd (TryLock mem_fs ''cache.lock'' () mem_empty))))
   \<and> mem_locks (snd (breaking_TryLockWithTimeout ''cache.lock'' 10 \<lparr>NowMs = 100\<rparr> ()
         (snd (TryLock mem_fs ''cache.lock'' () mem_empty)))) ''cache.lock'' = Some 100"
proof -
  let ?s1 = "snd (TryLock mem_fs ''cache.lock'' () mem_empty)"
  have free: "mem_locks mem_empty ''cache.lock'' = None"
    by (simp add: mem_empty_def)
  have clock: "mem_clock_ms mem_empty = 0"
    by (simp add: mem_empty_def)
  from TryLockWithTimeout_held_lock [where s = mem_empty and lock_name = "''cache.lock''"
      and h = "()" and fs = mem_fs and b = mem_empty and timeout_millis = 10
      and timer = "\<lparr>NowMs = 100\<rparr>" and last_ms = 0 and clock = "\<lparr>NowMs = 5\<rparr>"] free clock
  have held: "mem_locks ?s1 ''cache.lock'' = Some 0" by simp
  have early: "sint (NowMs \<lparr>NowMs = 5\<rparr>) - sint (0 :: int64) \<le> sint (10 :: int64)"
    by simp
  have late: "sint (10 :: int64) < sint (NowMs \<lparr>NowMs = 100\<rparr>) - sint (0 :: int64)"
    by simp
  from TryLockWithTimeout_held_lock [where s = ?s1 and lock_name = "''cache.lock''"
      and h = "()" and last_ms = 0 and timeout_millis = 10 and timer = "\<lparr>NowMs = 100\<rparr>"
      and clock = "\<lparr>NowMs = 5\<rparr>" and fs = mem_fs and b = ?s1] held early
  have "is_false (fst (TryLockWithTimeout mem_fs ''cache.lock'' 10 \<lparr>NowMs = 100\<rparr> () ?s1))"
    and "is_false (fst (breaking_TryLockWithTimeout ''cache.lock'' 10 \<lparr>NowMs = 5\<rparr> () ?s1))"
    by blast+
  moreover
  from TryLockWithTimeout_held_lock [where s = ?s1 and lock_name = "''cache.lock''"
      and h = "()" and last_ms = 0 and timeout_millis = 10 and timer = "\<lparr>NowMs = 100\<rparr>"
      and clock = "\<lparr>NowMs = 100\<rparr>" and fs = mem_fs and b = ?s1] held late
  have "is_true (fst (breaking_TryLockWithTimeout ''cache.lock'' 10 \<lparr>NowMs = 100\<rparr> () ?s1))"
    and "mem_locks (snd (breaking_TryLockWithTimeout ''cache.lock'' 10 \<lparr>NowMs = 100\<rparr> () ?s1))
      ''cache.lock'' = Some 100"
    by simp_all
  ultimately show ?thesis using free held early late by blast
qed

subsection \<open>Size-limited reads\<close>

text \<open>
  Claim C5. On the reference backend, for a file with content \<open>content\<close> and a
  limit that is not negative: when the content is longer than the limit, each of
  the four size-limited \<^verbatim>\<open>ReadFile\<close> returns false and leaves the buffer (or the
  writer) as it was; when the content is at most as long as the limit, each returns
  true and the buffer holds exactly the content (the writer has received exactly
  the content).
\<close>

theorem ReadFile_size_limit:
  assumes "mem_files s file_name = Some content" and "0 \<le> sint max_file_size"
  shows "(sint max_file_size < int (length content) \<longrightarrow>
            ReadFile_name_buffer mem_fs file_name max_file_size buffer h s
              = ((False, buffer), s)
          \<and> ReadFile_input_buffer mem_fs (Some \<lparr>filename = file_name\<rparr>) max_file_size
                buffer h s = ((False, buffer), s)
          \<and> ReadFile_name_writer mem_fs file_name max_file_size buffer h s
              = ((False, buffer), s)
          \<and> ReadFile_input_writer mem_fs (Some \<lparr>filename = file_name\<rparr>) max_file_size
                buffer h s = ((False, buffer), s))
       \<and> (int (length content) \<le> sint max_file_size \<longrightarrow>
            ReadFile_name_buffer mem_fs file_name max_file_size buffer h s
              = ((True, content), s)
          \<and> ReadFile_input_buffer mem_fs (Some \<lparr>filename = file_name\<rparr>) max_file_size
                buffer h s = ((True, content), s)
          \<and> ReadFile_name_writer mem_fs file_name max_file_size buffer h s
              = ((True, buffer @ content), s)
          \<and> ReadFile_input_writer mem_fs (Some \<lparr>filename = file_name\<rparr>) max_file_size
                buffer h s = ((True, buffer @ content), s))"
proof -
  from assms(2) have "max_file_size \<noteq> kUnlimitedSize"
    by (auto simp: kUnlimitedSize_def)
  with assms(1) show ?thesis
    by (simp add: ReadFile_name_buffer_def ReadFile_input_buffer_def ReadFile_name_writer_def
        ReadFile_input_writer_def Close_def mem_fs_def mem_OpenInputFile_def
        mem_InputFile_ReadFile_def mem_File_Close_def exceeds_limit_def)
qed

theorem ReadFile_size_limit_witness:
  "mem_files (mem_empty\<lparr>mem_files := [''f'' \<mapsto> ''abcd'']\<rparr>) ''f'' = Some ''abcd''
   \<and> 0 \<le> sint (3 :: int64) \<and> sint (3 :: int64) < int (length ''abcd'')
   \<and> ReadFile_name_buffer mem_fs ''f'' 3 ''old'' () (mem_empty\<lparr>mem_files := [''f'' \<mapsto> ''abcd'']\<rparr>)
       = ((False, ''old''), mem_empty\<lparr>mem_files := [''f'' \<mapsto> ''abcd'']\<rparr>)
   \<and> 0 \<le> sint (4 :: int64) \<and> int (length ''abcd'') \<le> sint (4 :: int64)
   \<and> ReadFile_name_buffer mem_fs ''f'' 4 ''old'' () (mem_empty\<lparr>mem_files := [''f'' \<mapsto> ''abcd'']\<rparr>)
       = ((True, ''abcd''), mem_empty\<lparr>mem_files := [''f'' \<mapsto> ''abcd'']\<rparr>)
   \<and> ReadFile_name_writer mem_fs ''f'' 4 ''old'' () (mem_empty\<lparr>mem_files := [''f'' \<mapsto> ''abcd'']\<rparr>)
       = ((True, ''oldabcd''), mem_empty\<lparr>mem_files := [''f'' \<mapsto> ''abcd'']\<rparr>)"
proof -
  let ?s = "mem_empty\<lparr>mem_files := [''f'' \<mapsto> ''abcd'']\<rparr>"
  have stored: "mem_files ?s ''f'' = Some ''abcd''" by simp
  have three: "0 \<le> sint (3 :: int64)" and over: "sint (3 :: int64) < int (length ''abcd'')"
    by simp_all
  have four: "0 \<le> sint (4 :: int64)" and under: "int (length ''abcd'') \<le> sint (4 :: int64)"
    by simp_all
  from ReadFile_size_limit [OF stored three, of "''old''" "()"] over
  have "ReadFile_name_buffer mem_fs ''f'' 3 ''old'' () ?s = ((False, ''old''), ?s)"
    by blast
  moreover from ReadFile_size_limit [OF stored four, of "''old''" "()"] under
  have "ReadFile_name_buffer mem_fs ''f'' 4 ''old'' () ?s = ((True, ''abcd''), ?s)"
    and "ReadFile_name_writer mem_fs ''f'' 4 ''old'' () ?s = ((True, ''old'' @ ''abcd''), ?s)"
    by blast+
  ultimately show ?thesis using stored three over four under by simp
qed

text \<open>
  Claim C9. \<^verbatim>\<open>kUnlimitedSize\<close> is -1 as an \<^verbatim>\<open>int64\<close>, that is, all 64 bits set;
  and with it as \<^verbatim>\<open>max_file_size\<close> no content exceeds the limit: on the reference
  backend the read of a file of any length succeeds with the whole content.
\<close>

theorem kUnlimitedSize_no_limit:
  "sint kUnlimitedSize = - 1
   \<and> kUnlimitedSize = 0xFFFFFFFFFFFFFFFF
   \<and> \<not> exceeds_limit kUnlimitedSize content
   \<and> (mem_files s file_name = Some content \<longrightarrow>
        ReadFile_name_buffer mem_fs file_name kUnlimitedSize buffer h s = ((True, content), s)
      \<and> ReadFile_name_writer mem_fs file_name kUnlimitedSize buffer h s
          = ((True, buffer @ content), s))"
  by (simp add: kUnlimitedSize_def ReadFile_name_buffer_def ReadFile_input_buffer_def
      ReadFile_name_writer_def ReadFile_input_writer_def Close_def mem_fs_def
      mem_OpenInputFile_def mem_InputFile_ReadFile_def mem_File_Close_def exceeds_limit_def)

theorem kUnlimitedSize_no_limit_witness:
  "sint kUnlimitedSize = - 1
   \<and> mem_files (mem_empty\<lparr>mem_files := [''f'' \<mapsto> ''abcd'']\<rparr>) ''f'' = Some ''abcd''
   \<and> ReadFile_name_buffer mem_fs ''f'' kUnlimitedSize ''old'' ()
         (mem_empty\<lparr>mem_files := [''f'' \<mapsto> ''abcd'']\<rparr>)
       = ((True, ''abcd''), mem_empty\<lparr>mem_files := [''f'' \<mapsto> ''abcd'']\<rparr>)"
proof -
  let ?s = "mem_empty\<lparr>mem_files := [''f'' \<mapsto> ''abcd'']\<rparr>"
  have stored: "mem_files ?s ''f'' = Some ''abcd''" by simp
  from kUnlimitedSize_no_limit [of "''abcd''" ?s "''f''" "''old''" "()"] stored
  show ?thesis by blast
qed

subsection \<open>Aggregation over a directory tree\<close>

lemma walk_accumulates:
  "walk path node d
     = d\<lparr>files := files d @ files_under path node,
         empty_dirs := empty_dirs d @ empty_under path node,
         DirInfo.size_bytes := DirInfo.size_bytes d + total_size (files_under path node),
         inode_count := inode_count d + of_nat (entries_under node)\<rparr>"
  "walk_entries path es d
     = d\<lparr>files := files d @ files_among path es,
         empty_dirs := empty_dirs d @ empty_among path es,
         DirInfo.size_bytes := DirInfo.size_bytes d + total_size (files_among path es),
         inode_count := inode_count d + of_nat (entries_among es)\<rparr>"
proof (induction path node d and path es d rule: walk_walk_entries.induct)
  case (1 path file_size file_atime dirinfo)
  then show ?case by (simp add: total_size_def)
next
  case (2 path entries dirinfo)
  then show ?case by (simp add: total_size_def)
next
  case (3 path dirinfo)
  then show ?case by (simp add: total_size_def)
next
  case (4 path entry rest dirinfo)
  then show ?case by (simp add: total_size_def algebra_simps)
qed

lemma below_child: "below (path @ ''/'' @ n) q \<Longrightarrow> below path q"
  by (auto simp: below_def)

lemma empty_under_below:
  "q \<in> set (empty_under path node) \<Longrightarrow> below path q"
  "q \<in> set (empty_among path es) \<Longrightarrow> \<exists>e \<in> set es. below (path @ ''/'' @ fst e) q"
proof (induction path node and path es rule: empty_under_empty_among.induct)
  case (1 path file_size file_atime)
  then show ?case by simp
next
  case (2 path entries)
  then show ?case by (auto simp: below_def split: if_splits)
next
  case (3 path)
  then show ?case by simp
next
  case (4 path entry rest)
  then show ?case by auto
qed

lemma name_before_slash:
  "CHR ''/'' \<notin> set n \<Longrightarrow> r = [] \<or> hd r = CHR ''/''
     \<Longrightarrow> takeWhile (\<lambda>c. c \<noteq> CHR ''/'') (n @ r) = n"
proof (induction n)
  case Nil
  then show ?case by (cases r) auto
next
  case (Cons c n)
  then show ?case by auto
qed

lemma siblings_apart:
  assumes "CHR ''/'' \<notin> set n" and "CHR ''/'' \<notin> set n'"
    and "below (path @ ''/'' @ n) q" and "below (path @ ''/'' @ n') q"
  shows "n = n'"
proof -
  from assms(3) obtain r where r: "q = path @ ''/'' @ n @ r" "r = [] \<or> hd r = CHR ''/''"
    by (auto simp: below_def)
  from assms(4) obtain r' where r': "q = path @ ''/'' @ n' @ r'" "r' = [] \<or> hd r' = CHR ''/''"
    by (auto simp: below_def)
  from r(1) r'(1) have "n @ r = n' @ r'" by simp
  then have "takeWhile (\<lambda>c. c \<noteq> CHR ''/'') (n @ r) = takeWhile (\<lambda>c. c \<noteq> CHR ''/'') (n' @ r')"
    by simp
  with name_before_slash [OF assms(1) r(2)] name_before_slash [OF assms(2) r'(2)]
  show ?thesis by simp
qed

lemma well_formed_entries_no_slash:
  "well_formed_entries es \<Longrightarrow> e \<in> set es \<Longrightarrow> CHR ''/'' \<notin> set (fst e)"
  by (induction es) auto

lemma empty_distinct:
  "well_formed node \<Longrightarrow> distinct (empty_under path node)"
  "well_formed_entries es \<Longrightarrow> distinct (map fst es) \<Longrightarrow> distinct (empty_among path es)"
proof (induction path node and path es rule: empty_under_empty_among.induct)
  case (1 path file_size file_atime)
  then show ?case by simp
next
  case (2 path entries)
  then show ?case by simp
next
  case (3 path)
  then show ?case by simp
next
  case (4 path entry rest)
  have "set (empty_under (path @ ''/'' @ fst entry) (snd entry)) \<inter> set (empty_among path rest) = {}"
  proof (rule ccontr)
    assume "\<not> ?thesis"
    then obtain q where q1: "q \<in> set (empty_under (path @ ''/'' @ fst entry) (snd entry))"
      and q2: "q \<in> set (empty_among path rest)" by blast
    from empty_under_below(2) [OF q2] obtain e where e: "e \<in> set rest"
      and be: "below (path @ ''/'' @ fst e) q" by blast
    from "4.prems"(1) e have "CHR ''/'' \<notin> set (fst e)"
      by (auto dest: well_formed_entries_no_slash)
    moreover from "4.prems"(1) have "CHR ''/'' \<notin> set (fst entry)" by simp
    ultimately have "fst entry = fst e"
      using empty_under_below(1) [OF q1] be by (rule_tac siblings_apart) auto
    with e "4.prems"(2) show False by auto
  qed
  with 4 show ?case by simp
qed

lemma count_list_distinct: "distinct xs \<Longrightarrow> x \<in> set xs \<Longrightarrow> count_list xs x = 1"
  by (induction xs) auto

text \<open>
  Claim C6. For every directory tree, \<^verbatim>\<open>GetDirInfo\<close> on a fresh \<^verbatim>\<open>DirInfo\<close>
  returns the metadata of every regular file under the root, a \<^verbatim>\<open>size_bytes\<close>
  that is the sum of their sizes, an \<^verbatim>\<open>inode_count\<close> that is the number of
  entries below the root, and an \<^verbatim>\<open>empty_dirs\<close> list of the full paths of the
  empty directories, in which (the tree being well formed) each of them stands
  exactly once. A directory with files of 10, 20 and 30 bytes and one empty
  subdirectory gives those three files, \<^verbatim>\<open>size_bytes\<close> 60, \<^verbatim>\<open>inode_count\<close> 4 and
  the path of the subdirectory as the only empty directory.
\<close>

theorem GetDirInfo_aggregates:
  "files (GetDirInfo path (Directory entries) DirInfo_default)
       = files_under path (Directory entries)
   \<and> DirInfo.size_bytes (GetDirInfo path (Directory entries) DirInfo_default)
       = total_size (files_under path (Directory entries))
   \<and> inode_count (GetDirInfo path (Directory entries) DirInfo_default)
       = of_nat (entries_under (Directory entries))
   \<and> empty_dirs (GetDirInfo path (Directory entries) DirInfo_default)
       = empty_under path (Directory entries)
   \<and> (well_formed (Directory entries) \<longrightarrow>
        (\<forall>q \<in> set (empty_under path (Directory entries)).
           count_list (empty_dirs (GetDirInfo path (Directory entries) DirInfo_default)) q = 1))
   \<and> GetDirInfo path
        (Directory [(n1, RegularFile 10 a1), (n2, RegularFile 20 a2), (n3, RegularFile 30 a3),
                    (n4, Directory [])]) DirInfo_default
       = \<lparr>files = [\<lparr>FileInfo.size_bytes = 10, atime_sec = a1, name = path @ ''/'' @ n1\<rparr>,
                   \<lparr>FileInfo.size_bytes = 20, atime_sec = a2, name = path @ ''/'' @ n2\<rparr>,
                   \<lparr>FileInfo.size_bytes = 30, atime_sec = a3, name = path @ ''/'' @ n3\<rparr>],
          empty_dirs = [path @ ''/'' @ n4], size_bytes = 60, inode_count = 4\<rparr>"
proof -
  define r where "r = GetDirInfo path (Directory entries) DirInfo_default"
  have r: "r = \<lparr>files = files_under path (Directory entries),
               empty_dirs = empty_under path (Directory entries),
               size_bytes = total_size (files_under path (Directory entries)),
               inode_count = of_nat (entries_under (Directory entries))\<rparr>"
    unfolding r_def GetDirInfo_def
    by (simp only: walk_accumulates(1) Node.case) (simp add: DirInfo_default_def)
  have once: "\<forall>q \<in> set (empty_under path (Directory entries)).
      count_list (empty_under path (Directory entries)) q = 1"
    if "well_formed (Directory entries)"
  proof -
    from that have "distinct (empty_under path (Directory entries))"
      by (rule empty_distinct(1))
    then show ?thesis by (simp add: count_list_distinct)
  qed
  have example: "GetDirInfo path
        (Directory [(n1, RegularFile 10 a1), (n2, RegularFile 20 a2), (n3, RegularFile 30 a3),
                    (n4, Directory [])]) DirInfo_default
       = \<lparr>files = [\<lparr>FileInfo.size_bytes = 10, atime_sec = a1, name = path @ ''/'' @ n1\<rparr>,
                   \<lparr>FileInfo.size_bytes = 20, atime_sec = a2, name = path @ ''/'' @ n2\<rparr>,
                   \<lparr>FileInfo.size_bytes = 30, atime_sec = a3, name = path @ ''/'' @ n3\<rparr>],
          empty_dirs = [path @ ''/'' @ n4], size_bytes = 60, inode_count = 4\<rparr>"
    by (simp add: GetDirInfo_def DirInfo_default_def)
  from r once example show ?thesis unfolding r_def by simp
qed

theorem GetDirInfo_aggregates_witness:
  "well_formed (Directory [(''a.css'', RegularFile 10 100), (''b.js'', RegularFile 20 200),
       (''c.png'', RegularFile 30 300), (''old'', Directory [])])
   \<and> GetDirInfo ''/cache'' (Directory [(''a.css'', RegularFile 10 100), (''b.js'', RegularFile 20 200),
       (''c.png'', RegularFile 30 300), (''old'', Directory [])]) DirInfo_default
     = \<lparr>files = [\<lparr>FileInfo.size_bytes = 10, atime_sec = 100, name = ''/cache/a.css''\<rparr>,
                 \<lparr>FileInfo.size_bytes = 20, atime_sec = 200, name = ''/cache/b.js''\<rparr>,
                 \<lparr>FileInfo.size_bytes = 30, atime_sec = 300, name = ''/cache/c.png''\<rparr>],
        empty_dirs = [''/cache/old''], size_bytes = 60, inode_count = 4\<rparr>
   \<and> count_list (empty_dirs (GetDirInfo ''/cache'' (Directory [(''a.css'', RegularFile 10 100),
       (''b.js'', RegularFile 20 200), (''c.png'', RegularFile 30 300), (''old'', Directory [])])
       DirInfo_default)) ''/cache/old'' = 1"
proof -
  let ?entries = "[(''a.css'', RegularFile 10 100), (''b.js'', RegularFile 20 200),
       (''c.png'', RegularFile 30 300), (''old'', Directory [])]"
  have wf: "well_formed (Directory ?entries)" by simp
  have "''/cache/old'' \<in> set (empty_under ''/cache'' (Directory ?entries))" by simp
  with GetDirInfo_aggregates [of "''/cache''" ?entries] wf
  have "count_list (empty_dirs (GetDirInfo ''/cache'' (Directory ?entries) DirInfo_default))
      ''/cache/old'' = 1" by blast
  moreover have "GetDirInfo ''/cache'' (Directory ?entries) DirInfo_default
     = \<lparr>files = [\<lparr>FileInfo.size_bytes = 10, atime_sec = 100, name = ''/cache/a.css''\<rparr>,
                 \<lparr>FileInfo.size_bytes = 20, atime_sec = 200, name = ''/cache/b.js''\<rparr>,
                 \<lparr>FileInfo.size_bytes = 30, atime_sec = 300, name = ''/cache/c.png''\<rparr>],
        empty_dirs = [''/cache/old''], size_bytes = 60, inode_count = 4\<rparr>"
    by (simp add: GetDirInfo_def DirInfo_default_def)
  ultimately show ?thesis using wf by simp
qed

subsection \<open>Atomic write\<close>

lemma make_dirs_mem_files:
  "mem_files (snd (make_dirs mem_fs ds h s)) = mem_files s"
proof (induction ds arbitrary: s)
  case Nil
  then show ?case by simp
next
  case (Cons d ds)
  have ex: "Exists mem_fs d h s = (BoolOrError_bool (mem_exists s d), s)"
    by (simp add: mem_fs_def mem_Exists_def)
  have isd: "IsDir mem_fs d h s = (BoolOrError_bool (d \<in> mem_dirs s), s)"
    by (simp add: mem_fs_def mem_IsDir_def)
  have mk: "MakeDir mem_fs d h s = mem_MakeDir d h s"
    by (simp add: mem_fs_def)
  obtain made s2 where made: "mem_MakeDir d h s = (made, s2)"
    by (cases "mem_MakeDir d h s")
  then have same: "mem_files s2 = mem_files s"
    by (auto simp: mem_MakeDir_def split: if_splits)
  show ?case
    using Cons.IH [of s2] Cons.IH [of s] same
    by (simp add: ex isd mk made)
qed

lemma SetupFileDir_mem_files:
  "mem_files (SetupFileDir mem_fs p h s) = mem_files s"
  by (simp add: SetupFileDir_def RecursivelyMakeDir_def make_dirs_mem_files split: option.splits)

lemma decimal_nonempty: "decimal n \<noteq> []"
  by (subst decimal.simps) simp

lemma temp_name_differs: "p @ decimal n \<noteq> p"
  by (simp add: decimal_nonempty)

lemma mem_OpenTempFileHelper_files:
  assumes "mem_OpenTempFileHelper p h s = (r, s1)"
  shows "mem_files s1 p = mem_files s p"
    and "r = Some f \<Longrightarrow> mem_files s1 (filename f) = Some [] \<and> filename f \<noteq> p"
proof -
  define t where "t = p @ decimal (mem_temp_count s)"
  define s' where "s' = s\<lparr>mem_temp_count := Suc (mem_temp_count s)\<rparr>"
  have unfolded: "mem_OpenTempFileHelper p h s =
      (if mem_exists s' t \<or> \<not> parent_exists s' t then (None, s')
       else (Some \<lparr>filename = t\<rparr>, s'\<lparr>mem_files := (mem_files s')(t \<mapsto> [])\<rparr>))"
    by (simp add: mem_OpenTempFileHelper_def Let_def t_def s'_def)
  have neq: "t \<noteq> p" by (simp add: t_def decimal_nonempty)
  show "mem_files s1 p = mem_files s p"
  proof (cases "mem_exists s' t \<or> \<not> parent_exists s' t")
    case True
    with assms unfolded have "s1 = s'" by simp
    then show ?thesis by (simp add: s'_def)
  next
    case False
    with assms unfolded have "s'\<lparr>mem_files := (mem_files s')(t \<mapsto> [])\<rparr> = s1" by simp
    then have "mem_files s1 = (mem_files s')(t \<mapsto> [])" by auto
    with neq show ?thesis by (simp add: s'_def)
  qed
  show "mem_files s1 (filename f) = Some [] \<and> filename f \<noteq> p" if "r = Some f"
  proof (cases "mem_exists s' t \<or> \<not> parent_exists s' t")
    case True
    with assms unfolded that show ?thesis by simp
  next
    case False
    with assms unfolded that have "f = \<lparr>filename = t\<rparr>"
      and "s'\<lparr>mem_files := (mem_files s')(t \<mapsto> [])\<rparr> = s1" by simp_all
    then have "filename f = t" and "mem_files s1 = (mem_files s')(t \<mapsto> [])" by auto
    with neq show ?thesis by simp
  qed
qed

lemma mem_Write_one:
  "mem_files s (filename f) = Some c0 \<Longrightarrow>
     snd (mem_OutputFile_Write f [c] h s)
       = s\<lparr>mem_files := (mem_files s)(filename f \<mapsto> c0 @ [c])\<rparr>"
  by (simp add: mem_OutputFile_Write_def)

lemma mem_write_states_other:
  "mem_files s (filename f) = Some c0 \<Longrightarrow> s' \<in> set (mem_write_states f buf h s)
     \<Longrightarrow> x \<noteq> filename f \<Longrightarrow> mem_files s' x = mem_files s x"
proof (induction buf arbitrary: s c0)
  case Nil
  then show ?case by simp
next
  case (Cons c cs)
  let ?s1 = "s\<lparr>mem_files := (mem_files s)(filename f \<mapsto> c0 @ [c])\<rparr>"
  have s1f: "mem_files ?s1 (filename f) = Some (c0 @ [c])" by simp
  from Cons.prems(2) have "s' = ?s1 \<or> s' \<in> set (mem_write_states f cs h ?s1)"
    by (simp add: Let_def mem_Write_one [OF Cons.prems(1)])
  then show ?case
  proof
    assume "s' = ?s1"
    with Cons.prems(3) show ?thesis by simp
  next
    assume "s' \<in> set (mem_write_states f cs h ?s1)"
    from Cons.IH [OF s1f this Cons.prems(3)] Cons.prems(3) show ?thesis by simp
  qed
qed

lemma mem_write_states_last:
  "mem_files s (filename f) = Some c0 \<Longrightarrow>
     last (s # mem_write_states f buf h s)
       = s\<lparr>mem_files := (mem_files s)(filename f \<mapsto> c0 @ buf)\<rparr>"
proof (induction buf arbitrary: s c0)
  case Nil
  then show ?case by (simp add: map_upd_triv)
next
  case (Cons c cs)
  let ?s1 = "s\<lparr>mem_files := (mem_files s)(filename f \<mapsto> c0 @ [c])\<rparr>"
  have s1f: "mem_files ?s1 (filename f) = Some (c0 @ [c])" by simp
  have "last (s # mem_write_states f (c # cs) h s) = last (?s1 # mem_write_states f cs h ?s1)"
    by (simp add: Let_def mem_Write_one [OF Cons.prems])
  also have "\<dots> = ?s1\<lparr>mem_files := (mem_files ?s1)(filename f \<mapsto> (c0 @ [c]) @ cs)\<rparr>"
    by (rule Cons.IH [OF s1f])
  also have "\<dots> = s\<lparr>mem_files := (mem_files s)(filename f \<mapsto> c0 @ c # cs)\<rparr>"
    by simp
  finally show ?case .
qed

lemma mem_OutputFile_Write_Some:
  "mem_files s (filename f) = Some c0 \<Longrightarrow>
     mem_OutputFile_Write f buf h s
       = (True, s\<lparr>mem_files := (mem_files s)(filename f \<mapsto> c0 @ buf)\<rparr>)"
  by (simp add: mem_OutputFile_Write_def)

lemma mem_RenameFileHelper_files:
  assumes "mem_files s old = Some c"
  shows "mem_files (snd (mem_RenameFileHelper old new h s)) new = mem_files s new
      \<or> mem_files (snd (mem_RenameFileHelper old new h s)) new = Some c"
    and "fst (mem_RenameFileHelper old new h s)
      \<Longrightarrow> mem_files (snd (mem_RenameFileHelper old new h s)) new = Some c"
  using assms by (auto simp: mem_RenameFileHelper_def split: if_splits)

lemma read_unlimited:
  "fst (ReadFile_name_buffer mem_fs p kUnlimitedSize buf h s)
     = (case mem_files s p of None \<Rightarrow> (False, buf) | Some content \<Rightarrow> (True, content))"
  by (simp add: ReadFile_name_buffer_def ReadFile_input_buffer_def Close_def mem_fs_def
      mem_OpenInputFile_def mem_InputFile_ReadFile_def mem_File_Close_def exceeds_limit_def
      split: option.splits)

lemma read_unlimited_state:
  "snd (ReadFile_name_buffer mem_fs p kUnlimitedSize buf h s) = s"
  by (simp add: ReadFile_name_buffer_def ReadFile_input_buffer_def Close_def mem_fs_def
      mem_OpenInputFile_def mem_InputFile_ReadFile_def mem_File_Close_def exceeds_limit_def
      split: option.splits)

lemma mem_fs_fields:
  "OpenTempFileHelper mem_fs = mem_OpenTempFileHelper"
  "OpenOutputFileHelper mem_fs = mem_OpenOutputFileHelper"
  "OutputFile_Write mem_fs = mem_OutputFile_Write"
  "RenameFileHelper mem_fs = mem_RenameFileHelper"
  "File_Close mem_fs = mem_File_Close"
  by (simp_all add: mem_fs_def)

lemma WriteFileAtomic_states_Some:
  assumes "mem_OpenTempFileHelper p h (SetupFileDir mem_fs p h s) = (Some f, s1)"
  shows "WriteFileAtomic_states p buf h s
     = [s, SetupFileDir mem_fs p h s, s1] @ mem_write_states f buf h s1
       @ [s1\<lparr>mem_files := (mem_files s1)(filename f \<mapsto> buf)\<rparr>,
          SetupFileDir mem_fs p h (s1\<lparr>mem_files := (mem_files s1)(filename f \<mapsto> buf)\<rparr>),
          snd (mem_RenameFileHelper (filename f) p h
                 (SetupFileDir mem_fs p h
                    (s1\<lparr>mem_files := (mem_files s1)(filename f \<mapsto> buf)\<rparr>)))]"
    and "WriteFileAtomic mem_fs p buf h s
     = mem_RenameFileHelper (filename f) p h
         (SetupFileDir mem_fs p h (s1\<lparr>mem_files := (mem_files s1)(filename f \<mapsto> buf)\<rparr>))"
proof -
  from mem_OpenTempFileHelper_files(2) [OF assms, of f]
  have empty: "mem_files s1 (filename f) = Some []" by simp
  from mem_write_states_last [OF empty, of buf h]
  have last: "last (s1 # mem_write_states f buf h s1)
      = s1\<lparr>mem_files := (mem_files s1)(filename f \<mapsto> buf)\<rparr>" by simp
  show "WriteFileAtomic_states p buf h s
     = [s, SetupFileDir mem_fs p h s, s1] @ mem_write_states f buf h s1
       @ [s1\<lparr>mem_files := (mem_files s1)(filename f \<mapsto> buf)\<rparr>,
          SetupFileDir mem_fs p h (s1\<lparr>mem_files := (mem_files s1)(filename f \<mapsto> buf)\<rparr>),
          snd (mem_RenameFileHelper (filename f) p h
                 (SetupFileDir mem_fs p h
                    (s1\<lparr>mem_files := (mem_files s1)(filename f \<mapsto> buf)\<rparr>)))]"
    unfolding WriteFileAtomic_states_def Let_def mem_fs_fields assms Close_def
    by (simp only: prod.case option.case last mem_File_Close_def snd_conv)
  from mem_OutputFile_Write_Some [OF empty, of buf h]
  have written: "mem_OutputFile_Write f buf h s1
      = (True, s1\<lparr>mem_files := (mem_files s1)(filename f \<mapsto> buf)\<rparr>)" by simp
  show "WriteFileAtomic mem_fs p buf h s
     = mem_RenameFileHelper (filename f) p h
         (SetupFileDir mem_fs p h (s1\<lparr>mem_files := (mem_files s1)(filename f \<mapsto> buf)\<rparr>))"
    unfolding WriteFileAtomic_def WriteTempFile_def OpenTempFile_def RenameFile_def Let_def
      mem_fs_fields assms Close_def
    by (simp add: written mem_File_Close_def)
qed

lemma WriteFileAtomic_states_None:
  assumes "mem_OpenTempFileHelper p h (SetupFileDir mem_fs p h s) = (None, s1)"
  shows "WriteFileAtomic_states p buf h s = [s, SetupFileDir mem_fs p h s, s1]"
    and "WriteFileAtomic mem_fs p buf h s = (False, s1)"
proof -
  show "WriteFileAtomic_states p buf h s = [s, SetupFileDir mem_fs p h s, s1]"
    unfolding WriteFileAtomic_states_def Let_def mem_fs_fields assms by simp
  show "WriteFileAtomic mem_fs p buf h s = (False, s1)"
    unfolding WriteFileAtomic_def WriteTempFile_def OpenTempFile_def Let_def
      mem_fs_fields assms by simp
qed

lemma WriteFileAtomic_states_old_or_new:
  assumes "s' \<in> set (WriteFileAtomic_states p buf h s)"
  shows "mem_files s' p = mem_files s p \<or> mem_files s' p = Some buf"
proof -
  let ?s0 = "SetupFileDir mem_fs p h s"
  obtain r s1 where opened: "mem_OpenTempFileHelper p h ?s0 = (r, s1)"
    by (cases "mem_OpenTempFileHelper p h ?s0")
  have s0: "mem_files ?s0 p = mem_files s p" by (simp add: SetupFileDir_mem_files)
  from mem_OpenTempFileHelper_files(1) [OF opened] s0
  have s1: "mem_files s1 p = mem_files s p" by simp
  show ?thesis
  proof (cases r)
    case None
    with opened assms s0 s1 show ?thesis
      by (auto simp: WriteFileAtomic_states_None(1))
  next
    case (Some f)
    let ?s2 = "s1\<lparr>mem_files := (mem_files s1)(filename f \<mapsto> buf)\<rparr>"
    let ?s4 = "SetupFileDir mem_fs p h ?s2"
    let ?s5 = "snd (mem_RenameFileHelper (filename f) p h ?s4)"
    from opened Some have opened': "mem_OpenTempFileHelper p h ?s0 = (Some f, s1)" by simp
    from mem_OpenTempFileHelper_files(2) [OF opened', of f]
    have empty: "mem_files s1 (filename f) = Some []" and neq: "p \<noteq> filename f" by auto
    from neq s1 have s2: "mem_files ?s2 p = mem_files s p" by simp
    then have s4: "mem_files ?s4 p = mem_files s p" by (simp add: SetupFileDir_mem_files)
    have temp: "mem_files ?s4 (filename f) = Some buf" by (simp add: SetupFileDir_mem_files)
    from mem_RenameFileHelper_files(1) [OF temp, of p h] s4
    have s5: "mem_files ?s5 p = mem_files s p \<or> mem_files ?s5 p = Some buf" by simp
    from assms have "s' \<in> {s, ?s0, s1, ?s2, ?s4, ?s5} \<or> s' \<in> set (mem_write_states f buf h s1)"
      by (auto simp: WriteFileAtomic_states_Some(1) [OF opened'])
    then show ?thesis
    proof
      assume "s' \<in> {s, ?s0, s1, ?s2, ?s4, ?s5}"
      with s0 s1 s2 s4 s5 show ?thesis by auto
    next
      assume "s' \<in> set (mem_write_states f buf h s1)"
      from mem_write_states_other [OF empty this neq] s1 show ?thesis by simp
    qed
  qed
qed

lemma WriteFileAtomic_states_ends:
  "hd (WriteFileAtomic_states p buf h s) = s"
  "last (WriteFileAtomic_states p buf h s) = snd (WriteFileAtomic mem_fs p buf h s)"
proof -
  let ?s0 = "SetupFileDir mem_fs p h s"
  obtain r s1 where opened: "mem_OpenTempFileHelper p h ?s0 = (r, s1)"
    by (cases "mem_OpenTempFileHelper p h ?s0")
  show "hd (WriteFileAtomic_states p buf h s) = s"
    using opened
    by (cases r) (simp_all add: WriteFileAtomic_states_None(1) WriteFileAtomic_states_Some(1))
  show "last (WriteFileAtomic_states p buf h s) = snd (WriteFileAtomic mem_fs p buf h s)"
    using opened
    by (cases r) (simp_all add: WriteFileAtomic_states_None WriteFileAtomic_states_Some)
qed

lemma WriteFileAtomic_read_back:
  assumes "fst (WriteFileAtomic mem_fs p buf h s)"
  shows "mem_files (snd (WriteFileAtomic mem_fs p buf h s)) p = Some buf"
proof -
  let ?s0 = "SetupFileDir mem_fs p h s"
  obtain r s1 where opened: "mem_OpenTempFileHelper p h ?s0 = (r, s1)"
    by (cases "mem_OpenTempFileHelper p h ?s0")
  show ?thesis
  proof (cases r)
    case None
    with opened assms show ?thesis by (simp add: WriteFileAtomic_states_None(2))
  next
    case (Some f)
    let ?s4 = "SetupFileDir mem_fs p h (s1\<lparr>mem_files := (mem_files s1)(filename f \<mapsto> buf)\<rparr>)"
    from opened Some have opened': "mem_OpenTempFileHelper p h ?s0 = (Some f, s1)" by simp
    have temp: "mem_files ?s4 (filename f) = Some buf" by (simp add: SetupFileDir_mem_files)
    from assms have "fst (mem_RenameFileHelper (filename f) p h ?s4)"
      by (simp add: WriteFileAtomic_states_Some(2) [OF opened'])
    from mem_RenameFileHelper_files(2) [OF temp this] show ?thesis
      by (simp add: WriteFileAtomic_states_Some(2) [OF opened'])
  qed
qed

lemma make_dirs_only_dirs:
  "snd (make_dirs mem_fs ds h s) = s\<lparr>mem_dirs := mem_dirs (snd (make_dirs mem_fs ds h s))\<rparr>"
proof (induction ds arbitrary: s)
  case Nil
  then show ?case by simp
next
  case (Cons d ds)
  have ex: "Exists mem_fs d h s = (BoolOrError_bool (mem_exists s d), s)"
    by (simp add: mem_fs_def mem_Exists_def)
  have isd: "IsDir mem_fs d h s = (BoolOrError_bool (d \<in> mem_dirs s), s)"
    by (simp add: mem_fs_def mem_IsDir_def)
  have mk: "MakeDir mem_fs d h s = mem_MakeDir d h s"
    by (simp add: mem_fs_def)
  obtain made s2 where made: "mem_MakeDir d h s = (made, s2)"
    by (cases "mem_MakeDir d h s")
  then have s2: "s2 = s\<lparr>mem_dirs := mem_dirs s2\<rparr>"
    by (auto simp: mem_MakeDir_def split: if_splits)
  from Cons.IH [of s2] s2
  have "snd (make_dirs mem_fs ds h s2) = s\<lparr>mem_dirs := mem_dirs (snd (make_dirs mem_fs ds h s2))\<rparr>"
    by (metis MemState.surjective MemState.update_convs(1))
  with Cons.IH [of s] s2 show ?case
    by (simp add: ex isd mk made)
qed

lemma SetupFileDir_only_dirs:
  "SetupFileDir mem_fs p h s = s\<lparr>mem_dirs := mem_dirs (SetupFileDir mem_fs p h s)\<rparr>"
proof (cases "parent_dir p")
  case None
  then show ?thesis by (simp add: SetupFileDir_def)
next
  case (Some d)
  with make_dirs_only_dirs [of "ancestors d @ [d]" h s] show ?thesis
    by (simp add: SetupFileDir_def RecursivelyMakeDir_def)
qed

lemma SetupFileDir_temp_count:
  "mem_temp_count (SetupFileDir mem_fs p h s) = mem_temp_count s"
  by (subst SetupFileDir_only_dirs) simp

lemma parents_exist_dirs:
  "mem_dirs a = mem_dirs b \<Longrightarrow> parents_exist a = parents_exist b"
  by (auto simp: parents_exist_def parent_exists_def split: option.splits)

lemma ancestor_shorter: "x \<in> set (ancestors p) \<Longrightarrow> length x < length p"
  using prefixes_at_slash_elem [of x "[]" p] by (auto simp: ancestors_def)

lemma temp_no_ancestor: "p @ decimal n \<notin> set (ancestors p)"
  using ancestor_shorter [of "p @ decimal n" p] by auto

lemma WriteFileAtomic_mem_succeeds:
  assumes inv: "parents_exist s"
    and nofile: "\<forall>a \<in> set (ancestors p). mem_files s a = None"
    and nodir: "p \<notin> mem_dirs s"
    and free: "\<not> mem_exists s (p @ decimal (mem_temp_count s))"
  shows "fst (WriteFileAtomic mem_fs p buf h s)"
proof -
  define s0 where "s0 = SetupFileDir mem_fs p h s"
  define t where "t = p @ decimal (mem_temp_count s)"
  define s0' where "s0' = s0\<lparr>mem_temp_count := Suc (mem_temp_count s0)\<rparr>"
  define s1 where "s1 = s0'\<lparr>mem_files := (mem_files s0')(t \<mapsto> [])\<rparr>"
  define s2 where "s2 = s1\<lparr>mem_files := (mem_files s1)(filename \<lparr>filename = t\<rparr> \<mapsto> buf)\<rparr>"
  define s4 where "s4 = SetupFileDir mem_fs p h s2"
  from SetupFileDir_mem_creates [OF inv nofile, of h]
  have dirs0: "mem_dirs s0 = mem_dirs s \<union> set (ancestors p)"
    and files0: "mem_files s0 = mem_files s" by (simp_all add: s0_def)
  have count0: "mem_temp_count s0 = mem_temp_count s"
    by (simp add: s0_def SetupFileDir_temp_count)
  have inv0: "parents_exist s0"
    unfolding s0_def using inv by (rule SetupFileDir_parents_exist)
  have t_anc: "t \<notin> set (ancestors p)" by (simp add: t_def temp_no_ancestor)
  from free dirs0 files0 t_anc have t_free: "\<not> mem_exists s0' t"
    by (simp add: mem_exists_def s0'_def t_def)
  from dirs0 have par_p: "parent_exists s0 p"
    by (simp add: parent_exists_def parent_dir_def)
  then have par_t: "parent_exists s0' t"
    by (simp add: parent_exists_def parent_dir_temp t_def s0'_def split: option.splits)
  have "mem_OpenTempFileHelper p h s0 =
      (if mem_exists s0' t \<or> \<not> parent_exists s0' t then (None, s0')
       else (Some \<lparr>filename = t\<rparr>, s0'\<lparr>mem_files := (mem_files s0')(t \<mapsto> [])\<rparr>))"
    by (simp add: mem_OpenTempFileHelper_def Let_def count0 t_def s0'_def)
  with t_free par_t have opened: "mem_OpenTempFileHelper p h s0 = (Some \<lparr>filename = t\<rparr>, s1)"
    by (simp add: s1_def)
  have dirs2: "mem_dirs s2 = mem_dirs s0" by (simp add: s2_def s1_def s0'_def)
  have files2: "mem_files s2 = (mem_files s)(t \<mapsto> buf)"
    by (simp add: s2_def s1_def s0'_def files0)
  from inv0 parents_exist_dirs [OF dirs2] have inv2: "parents_exist s2" by simp
  from nofile t_anc have nofile2: "\<forall>a \<in> set (ancestors p). mem_files s2 a = None"
    by (auto simp: files2)
  from SetupFileDir_mem_creates [OF inv2 nofile2, of h] dirs2 dirs0 files2
  have dirs4: "mem_dirs s4 = mem_dirs s \<union> set (ancestors p)"
    and files4: "mem_files s4 = (mem_files s)(t \<mapsto> buf)" by (auto simp: s4_def)
  have "p \<notin> set (ancestors p)" using ancestor_shorter [of p p] by auto
  with nodir dirs4 have nodir4: "p \<notin> mem_dirs s4" by simp
  from dirs4 have par4: "parent_exists s4 p"
    by (simp add: parent_exists_def parent_dir_def)
  from files4 nodir4 par4 have "fst (mem_RenameFileHelper t p h s4)"
    by (simp add: mem_RenameFileHelper_def)
  with WriteFileAtomic_states_Some(2) [of p h s "\<lparr>filename = t\<rparr>" s1 buf] opened
  show ?thesis by (simp add: s0_def s4_def s2_def)
qed

lemmas write_eval = mem_fs_def SetupFileDir_def RecursivelyMakeDir_def
  parent_dir_def ancestors_def mem_Exists_def mem_IsDir_def mem_MakeDir_def mem_exists_def
  parent_exists_def mem_OpenOutputFileHelper_def mem_OpenTempFileHelper_def
  mem_OutputFile_Write_def mem_RenameFileHelper_def mem_File_Close_def Close_def
  BoolOrError_bool_def is_true_def is_false_def Let_def decimal_0 mem_empty_def
  WriteFileAtomic_states_def WriteFile_states_def

text \<open>
  Claim C1. On the reference backend, for every byte sequence \<open>buffer\<close> and
  file name: the states the storage passes through while \<^verbatim>\<open>WriteFileAtomic\<close> runs
  begin with the state before the call and end with the state the call returns;
  in every one of them a reader of the file finds what it would have found before
  the call, or exactly \<open>buffer\<close>, never a part of it; after a
  \<^verbatim>\<open>WriteFileAtomic\<close> that returned true a read of the file yields exactly
  \<open>buffer\<close>; and the call does return true when every directory has its parent,
  no ancestor of the file is a regular file, the file is not a directory and the
  name of the temporary file is not taken.
\<close>

theorem WriteFileAtomic_old_or_new:
  "hd (WriteFileAtomic_states file_name buffer h s) = s
   \<and> last (WriteFileAtomic_states file_name buffer h s)
       = snd (WriteFileAtomic mem_fs file_name buffer h s)
   \<and> (\<forall>s' \<in> set (WriteFileAtomic_states file_name buffer h s).
        fst (ReadFile_name_buffer mem_fs file_name kUnlimitedSize buf h s')
          = fst (ReadFile_name_buffer mem_fs file_name kUnlimitedSize buf h s)
        \<or> fst (ReadFile_name_buffer mem_fs file_name kUnlimitedSize buf h s') = (True, buffer))
   \<and> (fst (WriteFileAtomic mem_fs file_name buffer h s) \<longrightarrow>
        ReadFile_name_buffer mem_fs file_name kUnlimitedSize buf h
            (snd (WriteFileAtomic mem_fs file_name buffer h s))
          = ((True, buffer), snd (WriteFileAtomic mem_fs file_name buffer h s)))
   \<and> (parents_exist s \<and> (\<forall>a \<in> set (ancestors file_name). mem_files s a = None)
        \<and> file_name \<notin> mem_dirs s
        \<and> \<not> mem_exists s (file_name @ decimal (mem_temp_count s))
      \<longrightarrow> fst (WriteFileAtomic mem_fs file_name buffer h s))"
proof -
  have seen: "fst (ReadFile_name_buffer mem_fs file_name kUnlimitedSize buf h s')
          = fst (ReadFile_name_buffer mem_fs file_name kUnlimitedSize buf h s)
        \<or> fst (ReadFile_name_buffer mem_fs file_name kUnlimitedSize buf h s') = (True, buffer)"
    if "s' \<in> set (WriteFileAtomic_states file_name buffer h s)" for s'
    using WriteFileAtomic_states_old_or_new [OF that] by (auto simp: read_unlimited)
  have reread: "ReadFile_name_buffer mem_fs file_name kUnlimitedSize buf h
            (snd (WriteFileAtomic mem_fs file_name buffer h s))
          = ((True, buffer), snd (WriteFileAtomic mem_fs file_name buffer h s))"
    if "fst (WriteFileAtomic mem_fs file_name buffer h s)"
  proof -
    from WriteFileAtomic_read_back [OF that]
    have "fst (ReadFile_name_buffer mem_fs file_name kUnlimitedSize buf h
            (snd (WriteFileAtomic mem_fs file_name buffer h s))) = (True, buffer)"
      by (simp add: read_unlimited)
    then show ?thesis
      by (simp add: prod_eq_iff read_unlimited_state)
  qed
  from seen reread WriteFileAtomic_states_ends [of file_name buffer h s]
    WriteFileAtomic_mem_succeeds [of s file_name buffer h]
  show ?thesis by blast
qed

theorem WriteFileAtomic_old_or_new_witness:
  "map (\<lambda>s'. fst (ReadFile_name_buffer mem_fs ''d/c.txt'' kUnlimitedSize [] () s'))
       (WriteFileAtomic_states ''d/c.txt'' ''ab'' ()
          (mem_empty\<lparr>mem_dirs := {''d''}, mem_files := [''d/c.txt'' \<mapsto> ''old'']\<rparr>))
     = [(True, ''old''), (True, ''old''), (True, ''old''), (True, ''old''), (True, ''old''),
        (True, ''old''), (True, ''old''), (True, ''ab'')]
   \<and> fst (WriteFileAtomic mem_fs ''d/c.txt'' ''ab'' ()
          (mem_empty\<lparr>mem_dirs := {''d''}, mem_files := [''d/c.txt'' \<mapsto> ''old'']\<rparr>))
   \<and> fst (ReadFile_name_buffer mem_fs ''d/c.txt'' kUnlimitedSize [] ()
          (snd (WriteFileAtomic mem_fs ''d/c.txt'' ''ab'' ()
             (mem_empty\<lparr>mem_dirs := {''d''}, mem_files := [''d/c.txt'' \<mapsto> ''old'']\<rparr>))))
       = (True, ''ab'')
   \<and> map (\<lambda>s'. fst (ReadFile_name_buffer mem_fs ''d/c.txt'' kUnlimitedSize [] () s'))
       (WriteFile_states ''d/c.txt'' ''ab'' ()
          (mem_empty\<lparr>mem_dirs := {''d''}, mem_files := [''d/c.txt'' \<mapsto> ''old'']\<rparr>))
     = [(True, ''old''), (True, ''old''), (True, []), (True, ''a''), (True, ''ab''),
        (True, ''ab'')]"
proof -
  let ?s = "mem_empty\<lparr>mem_dirs := {''d''}, mem_files := [''d/c.txt'' \<mapsto> ''old'']\<rparr>"
  have inv: "parents_exist ?s"
    by (simp add: parents_exist_def parent_exists_def parent_dir_def ancestors_def)
  have clear: "\<forall>a \<in> set (ancestors ''d/c.txt''). mem_files ?s a = None"
    by (simp add: ancestors_def)
  have nodir: "''d/c.txt'' \<notin> mem_dirs ?s" by simp
  have free: "\<not> mem_exists ?s (''d/c.txt'' @ decimal (mem_temp_count ?s))"
    by (simp add: mem_exists_def mem_empty_def decimal_0)
  from WriteFileAtomic_old_or_new [of "''d/c.txt''" "''ab''" "()" ?s "[]"] inv clear nodir free
  have ok: "fst (WriteFileAtomic mem_fs ''d/c.txt'' ''ab'' () ?s)"
    and reread: "fst (ReadFile_name_buffer mem_fs ''d/c.txt'' kUnlimitedSize [] ()
          (snd (WriteFileAtomic mem_fs ''d/c.txt'' ''ab'' () ?s))) = (True, ''ab'')"
    by simp_all
  have atomic: "map (\<lambda>s'. fst (ReadFile_name_buffer mem_fs ''d/c.txt'' kUnlimitedSize [] () s'))
       (WriteFileAtomic_states ''d/c.txt'' ''ab'' () ?s)
     = [(True, ''old''), (True, ''old''), (True, ''old''), (True, ''old''), (True, ''old''),
        (True, ''old''), (True, ''old''), (True, ''ab'')]"
    by (simp only: read_unlimited) (simp add: write_eval)
  have direct: "map (\<lambda>s'. fst (ReadFile_name_buffer mem_fs ''d/c.txt'' kUnlimitedSize [] () s'))
       (WriteFile_states ''d/c.txt'' ''ab'' () ?s)
     = [(True, ''old''), (True, ''old''), (True, []), (True, ''a''), (True, ''ab''),
        (True, ''ab'')]"
    by (simp only: read_unlimited) (simp add: write_eval)
  from atomic ok reread direct show ?thesis by blast
qed

end
